theory Spec2Isabelle
  imports Main "HOL-Library.FSet"
begin

section \<open>Python values\<close>

text \<open>
  The event handlers of packit-service pass events around as plain Python dictionaries
  and read them with \<^verbatim>\<open>dict.get\<close>, so the values of a dictionary are dynamically typed.
  \<open>pyval\<close> holds the values that occur: \<^verbatim>\<open>None\<close>, strings, integers,
  \<^verbatim>\<open>datetime\<close> objects, lists, sets, dictionaries and the two kinds of objects that
  the lazy attributes of \<^verbatim>\<open>EventData\<close> hold.
  A dictionary is an association list in insertion order: storing under a key that is
  already there keeps its position, a new key goes to the end, as in a Python dictionary.
\<close>

datatype TriggerKind = PullRequest | Branch | Release | Issue

record GitProject =
  namespace :: string
  repo :: string

record AbstractTriggerDbType =
  job_trigger_model_type :: TriggerKind
  db_id :: int

text \<open>
  A \<^verbatim>\<open>datetime\<close> is aware (it has a \<^verbatim>\<open>tzinfo\<close>) or naive (it has none). Two aware
  datetimes are equal when they are the same instant, whatever their time zones, so an
  aware datetime is kept as its instant, in microseconds since the epoch. Two naive
  datetimes are equal when their fields are, so a naive datetime is kept as the reading of
  its wall clock, in microseconds since the reading 1970-01-01 00:00:00. A naive datetime
  and an aware one are never equal. Equality of \<open>datetime\<close> is therefore Python's
  \<^verbatim>\<open>==\<close>.
\<close>

datatype datetime = Aware int | Naive int

text \<open>The hashable values: what a set can hold.\<close>

datatype hval =
    HNone
  | HStr string
  | HInt int
  | HDatetime datetime
  | HProject GitProject
  | HTrigger AbstractTriggerDbType

datatype pyval =
    PNone
  | PStr string
  | PInt int
  | PDatetime datetime
  | PList "pyval list"
  | PSet "hval fset"
  | PDict "(string \<times> pyval) list"
  | PProject GitProject
  | PTrigger AbstractTriggerDbType

type_synonym pydict = "(string \<times> pyval) list"

datatype error = AttributeError | TypeError

text \<open>Truth value testing, as \<^verbatim>\<open>if x:\<close> does it.\<close>

fun truthy :: "pyval \<Rightarrow> bool" where
  "truthy PNone = False"
| "truthy (PStr s) = (s \<noteq> [])"
| "truthy (PInt n) = (n \<noteq> 0)"
| "truthy (PDatetime t) = True"
| "truthy (PList xs) = (xs \<noteq> [])"
| "truthy (PSet s) = (s \<noteq> {||})"
| "truthy (PDict d) = (d \<noteq> [])"
| "truthy (PProject p) = True"
| "truthy (PTrigger t) = True"


text \<open>
  \<^verbatim>\<open>d.get(k)\<close> (the value stored under the key, \<^verbatim>\<open>None\<close> when the key is
  missing), \<^verbatim>\<open>d[k] = v\<close> and \<^verbatim>\<open>d.pop(k, None)\<close>.
\<close>

definition dict_get :: "pydict \<Rightarrow> string \<Rightarrow> pyval" where
  "dict_get d k = (case map_of d k of None \<Rightarrow> PNone | Some v \<Rightarrow> v)"

fun dict_set :: "'k \<Rightarrow> 'v \<Rightarrow> ('k \<times> 'v) list \<Rightarrow> ('k \<times> 'v) list" where
  "dict_set k v [] = [(k, v)]"
| "dict_set k v (p # d) = (if fst p = k then (k, v) # d else p # dict_set k v d)"

definition dict_pop :: "'k \<Rightarrow> ('k \<times> 'v) list \<Rightarrow> ('k \<times> 'v) list" where
  "dict_pop k d = filter (\<lambda>p. fst p \<noteq> k) d"

text \<open>
  \<^verbatim>\<open>set(x)\<close> and \<^verbatim>\<open>list(s)\<close>. Lists, sets and dictionaries are unhashable
  and cannot be elements of a set; a string is iterated character by character, a
  dictionary by its keys, and anything that is not iterable raises \<^verbatim>\<open>TypeError\<close>.
\<close>

fun hash_key :: "pyval \<Rightarrow> hval option" where
  "hash_key PNone = Some HNone"
| "hash_key (PStr s) = Some (HStr s)"
| "hash_key (PInt n) = Some (HInt n)"
| "hash_key (PDatetime t) = Some (HDatetime t)"
| "hash_key (PProject p) = Some (HProject p)"
| "hash_key (PTrigger t) = Some (HTrigger t)"
| "hash_key (PList xs) = None"
| "hash_key (PSet s) = None"
| "hash_key (PDict d) = None"

fun of_hval :: "hval \<Rightarrow> pyval" where
  "of_hval HNone = PNone"
| "of_hval (HStr s) = PStr s"
| "of_hval (HInt n) = PInt n"
| "of_hval (HDatetime t) = PDatetime t"
| "of_hval (HProject p) = PProject p"
| "of_hval (HTrigger t) = PTrigger t"


text \<open>
  What the interpreter and the machine decide: the order in which \<^verbatim>\<open>list(s)\<close>
  enumerates a set, which Python does not specify, and the instant that the local time
  zone of the process gives to the wall clock reading of a naive datetime.
\<close>

record interpreter =
  list_of_set :: "hval fset \<Rightarrow> hval list"
  local_timestamp :: "int \<Rightarrow> int"


fun timestamp :: "interpreter \<Rightarrow> datetime \<Rightarrow> int" where
  "timestamp rt (Aware t) = t"
| "timestamp rt (Naive w) = local_timestamp rt w"

definition int_timestamp :: "int \<Rightarrow> int" where
  "int_timestamp t = (if 0 \<le> t then t div 1000000 else - ((- t) div 1000000))"

section \<open>EventData (packit\_service/worker/events/event.py)\<close>

text \<open>
  The attributes that \<^verbatim>\<open>__init__\<close> stores as they come are dynamically typed.
  \<^verbatim>\<open>task_accepted_time\<close> is a datetime, aware or naive, or \<^verbatim>\<open>None\<close>, and
  \<^verbatim>\<open>targets_override\<close> is a set or \<^verbatim>\<open>None\<close>: \<^verbatim>\<open>from_event_dict\<close> builds the
  first by \<^verbatim>\<open>fromtimestamp\<close>, \<^verbatim>\<open>__init__\<close> the second by \<^verbatim>\<open>set(...)\<close>. The fields \<open>priv_project\<close> and \<open>priv_db_trigger\<close> are the lazy
  attributes \<^verbatim>\<open>_project\<close> and \<^verbatim>\<open>_db_trigger\<close>; \<open>identifier'\<close> is the
  attribute \<^verbatim>\<open>identifier\<close>, a reserved word of Isabelle.
\<close>

record EventData =
  event_type :: pyval
  user_login :: pyval
  trigger_id :: pyval
  project_url :: pyval
  tag_name :: pyval
  git_ref :: pyval
  pr_id :: pyval
  commit_sha :: pyval
  identifier' :: pyval
  event_dict :: pyval
  issue_id :: pyval
  task_accepted_time :: "datetime option"
  targets_override :: "hval fset option"
  priv_project :: "GitProject option"
  priv_db_trigger :: "AbstractTriggerDbType option"



text \<open>\<^verbatim>\<open>self.__dict__\<close>, in the order in which \<^verbatim>\<open>__init__\<close> assigns the attributes.\<close>

definition opt_val :: "('a \<Rightarrow> pyval) \<Rightarrow> 'a option \<Rightarrow> pyval" where
  "opt_val f x = (case x of None \<Rightarrow> PNone | Some v \<Rightarrow> f v)"

definition dunder_dict :: "EventData \<Rightarrow> pydict" where
  "dunder_dict e =
     [(''event_type'', event_type e), (''user_login'', user_login e),
      (''trigger_id'', trigger_id e), (''project_url'', project_url e),
      (''tag_name'', tag_name e), (''git_ref'', git_ref e), (''pr_id'', pr_id e),
      (''commit_sha'', commit_sha e), (''identifier'', identifier' e),
      (''event_dict'', event_dict e), (''issue_id'', issue_id e),
      (''task_accepted_time'', opt_val PDatetime (task_accepted_time e)),
      (''targets_override'', opt_val PSet (targets_override e)),
      (''_project'', opt_val PProject (priv_project e)),
      (''_db_trigger'', opt_val PTrigger (priv_db_trigger e))]"

text \<open>
  \<^verbatim>\<open>get_dict\<close>. The values are immutable here, so the deep copy is the identity.
  The interpreter \<open>rt\<close> gives the order of \<^verbatim>\<open>list(targets_override)\<close> and the local
  time zone.
\<close>

definition get_dict :: "interpreter \<Rightarrow> EventData \<Rightarrow> pydict" where
  "get_dict rt e =
     (let d = dunder_dict e;
          d = dict_set ''task_accepted_time''
                (case task_accepted_time e of
                   None \<Rightarrow> PNone
                 | Some t \<Rightarrow> PInt (int_timestamp (timestamp rt t))) d;
          d = (case targets_override e of
                 None \<Rightarrow> d
               | Some s \<Rightarrow> if s \<noteq> {||}
                          then dict_set ''targets_override''
                                 (PList (map of_hval (list_of_set rt s))) d
                          else d);
          d = dict_pop ''_project'' d;
          d = dict_pop ''_db_trigger'' d
      in d)"

text \<open>
  The two entries that \<^verbatim>\<open>get_dict\<close> rewrites, as they end up in the dictionary: the
  accepted time as a whole number of seconds, and the override as a list unless it is empty.
\<close>

definition tat_entry :: "interpreter \<Rightarrow> datetime option \<Rightarrow> pyval" where
  "tat_entry rt t =
     (case t of None \<Rightarrow> PNone | Some t \<Rightarrow> PInt (int_timestamp (timestamp rt t)))"

definition override_entry :: "interpreter \<Rightarrow> hval fset option \<Rightarrow> pyval" where
  "override_entry rt s =
     (case s of
        None \<Rightarrow> PNone
      | Some s \<Rightarrow> if s \<noteq> {||} then PList (map of_hval (list_of_set rt s)) else PSet s)"

text \<open>Concrete events for the examples below.\<close>

definition no_override_event :: "datetime option \<Rightarrow> EventData" where
  "no_override_event t = \<lparr>
     event_type = PStr ''PullRequestCommentGithubEvent'', user_login = PStr ''phracek'',
     trigger_id = PInt 9, project_url = PStr ''https://github.com/packit-service/hello-world'',
     tag_name = PNone, git_ref = PNone, pr_id = PInt 9, commit_sha = PStr ''12345'',
     identifier' = PNone, event_dict = PNone, issue_id = PNone,
     task_accepted_time = t, targets_override = None,
     priv_project = None, priv_db_trigger = None \<rparr>"





definition no_enum :: interpreter where
  "no_enum = \<lparr> list_of_set = (\<lambda>s. []), local_timestamp = (\<lambda>w. w) \<rparr>"

section \<open>The lazy attributes of EventData\<close>

text \<open>
  \<^verbatim>\<open>project\<close> and \<^verbatim>\<open>db_trigger\<close> are properties that fill \<^verbatim>\<open>_project\<close> and
  \<^verbatim>\<open>_db_trigger\<close> on demand. Reading one changes the object and calls collaborators,
  so a read takes and returns the object together with the trace of the calls made so far:
  an invocation of the resolver \<^verbatim>\<open>get_project\<close>, a lookup of a project by URL in the
  service configuration, an upsert in the store, a logged warning.

  The collaborators are parameters. The service configuration maps a URL to a project
  handle; the store's \<^verbatim>\<open>get_or_create\<close> returns the record for a natural key.
\<close>

datatype upsert_call =
    PullRequestModel_get_or_create pyval string string pyval
  | GitBranchModel_get_or_create pyval string string pyval
  | ProjectReleaseModel_get_or_create pyval string string pyval pyval
  | IssueModel_get_or_create pyval string string pyval

datatype event_effect =
    Call_get_project
  | ServiceConfig_get_project pyval
  | Upsert upsert_call
  | Log_warning

record collaborators =
  service_get_project :: "pyval \<Rightarrow> GitProject option"
  get_or_create :: "upsert_call \<Rightarrow> AbstractTriggerDbType"

type_synonym event_state = "EventData \<times> event_effect list"

text \<open>
  \<^verbatim>\<open>get_project\<close>: without a project URL there is no project. With one, the
  \<^verbatim>\<open>or\<close> in the argument takes its left operand, so \<^verbatim>\<open>db_trigger\<close> is not read.
\<close>

definition get_project ::
  "collaborators \<Rightarrow> event_state \<Rightarrow> GitProject option \<times> event_state" where
  "get_project env s =
     (case s of (e, tr) \<Rightarrow>
        if \<not> truthy (project_url e) then (None, (e, tr @ [Call_get_project]))
        else (service_get_project env (project_url e),
              (e, tr @ [Call_get_project, ServiceConfig_get_project (project_url e)])))"

definition project ::
  "collaborators \<Rightarrow> event_state \<Rightarrow> GitProject option \<times> event_state" where
  "project env s =
     (case priv_project (fst s) of
        Some p \<Rightarrow> (Some p, s)
      | None \<Rightarrow>
          (case get_project env s of
             (p, (e, tr)) \<Rightarrow> (p, (e\<lparr>priv_project := p\<rparr>, tr))))"

text \<open>
  The arguments of an upsert read \<^verbatim>\<open>self.project\<close> twice, for the namespace and for the
  repository name; an attribute of \<^verbatim>\<open>None\<close> raises \<^verbatim>\<open>AttributeError\<close>.
\<close>

definition upsert_with ::
  "collaborators \<Rightarrow> event_state \<Rightarrow> (string \<Rightarrow> string \<Rightarrow> upsert_call)
     \<Rightarrow> (error + AbstractTriggerDbType option) \<times> event_state" where
  "upsert_with env s mk =
     (case project env s of
        (None, s1) \<Rightarrow> (Inl AttributeError, s1)
      | (Some p1, s1) \<Rightarrow>
          (case project env s1 of
             (None, s2) \<Rightarrow> (Inl AttributeError, s2)
           | (Some p2, (e, tr)) \<Rightarrow>
               (let c = mk (namespace p1) (repo p2); t = get_or_create env c
                in (Inr (Some t), (e\<lparr>priv_db_trigger := Some t\<rparr>, tr @ [Upsert c])))))"

definition pull_request_event_types :: "string list" where
  "pull_request_event_types =
     [''PullRequestGithubEvent'', ''PullRequestPagureEvent'', ''MergeRequestGitlabEvent'',
      ''PullRequestCommentGithubEvent'', ''MergeRequestCommentGitlabEvent'',
      ''PullRequestCommentPagureEvent'', ''CheckRerunPullRequestEvent'']"

definition push_event_types :: "string list" where
  "push_event_types =
     [''PushGitHubEvent'', ''PushGitlabEvent'', ''PushPagureEvent'', ''CheckRerunCommitEvent'']"

definition release_event_types :: "string list" where
  "release_event_types = [''ReleaseEvent'', ''CheckRerunReleaseEvent'']"

definition issue_event_types :: "string list" where
  "issue_event_types = [''IssueCommentEvent'', ''IssueCommentGitlabEvent'']"

text \<open>
  \<^verbatim>\<open>x in {...}\<close> for a set of strings: the value is hashed, which raises
  \<^verbatim>\<open>TypeError\<close> for a list, a set or a dictionary.
\<close>

definition is_in :: "pyval \<Rightarrow> string list \<Rightarrow> bool" where
  "is_in v names = (case v of PStr s \<Rightarrow> s \<in> set names | _ \<Rightarrow> False)"

definition db_trigger ::
  "collaborators \<Rightarrow> event_state \<Rightarrow> (error + AbstractTriggerDbType option) \<times> event_state" where
  "db_trigger env s =
     (case s of (e, tr) \<Rightarrow>
        (case priv_db_trigger e of
           Some t \<Rightarrow> (Inr (Some t), s)
         | None \<Rightarrow>
             if hash_key (event_type e) = None then (Inl TypeError, s)
             else if is_in (event_type e) pull_request_event_types then
               upsert_with env s
                 (\<lambda>ns rp. PullRequestModel_get_or_create (pr_id e) ns rp (project_url e))
             else if is_in (event_type e) push_event_types then
               upsert_with env s
                 (\<lambda>ns rp. GitBranchModel_get_or_create (git_ref e) ns rp (project_url e))
             else if is_in (event_type e) release_event_types then
               upsert_with env s
                 (\<lambda>ns rp. ProjectReleaseModel_get_or_create (tag_name e) ns rp (project_url e)
                             (commit_sha e))
             else if is_in (event_type e) issue_event_types then
               upsert_with env s
                 (\<lambda>ns rp. IssueModel_get_or_create (issue_id e) ns rp (project_url e))
             else (Inr None, (e, tr @ [Log_warning]))))"

text \<open>
  The table of the specification: every event type is of one kind, and every kind has
  one kind of trigger, with the key that identifies the trigger next to the namespace, the
  repository and the project URL.
\<close>

datatype EventKind =
    PullRequestEvent | PullRequestCommentEvent | CheckRerunPullRequest
  | PushEvent | CheckRerunCommit
  | ReleaseKind | CheckRerunRelease
  | IssueCommentKind

definition kind_of_event_type :: "string \<Rightarrow> EventKind option" where
  "kind_of_event_type n =
     (if n \<in> {''PullRequestGithubEvent'', ''PullRequestPagureEvent'', ''MergeRequestGitlabEvent''}
        then Some PullRequestEvent
      else if n \<in> {''PullRequestCommentGithubEvent'', ''MergeRequestCommentGitlabEvent'',
                   ''PullRequestCommentPagureEvent''}
        then Some PullRequestCommentEvent
      else if n = ''CheckRerunPullRequestEvent'' then Some CheckRerunPullRequest
      else if n \<in> {''PushGitHubEvent'', ''PushGitlabEvent'', ''PushPagureEvent''}
        then Some PushEvent
      else if n = ''CheckRerunCommitEvent'' then Some CheckRerunCommit
      else if n = ''ReleaseEvent'' then Some ReleaseKind
      else if n = ''CheckRerunReleaseEvent'' then Some CheckRerunRelease
      else if n \<in> {''IssueCommentEvent'', ''IssueCommentGitlabEvent''} then Some IssueCommentKind
      else None)"

fun trigger_kind_table :: "EventKind \<Rightarrow> TriggerKind" where
  "trigger_kind_table PullRequestEvent = PullRequest"
| "trigger_kind_table PullRequestCommentEvent = PullRequest"
| "trigger_kind_table CheckRerunPullRequest = PullRequest"
| "trigger_kind_table PushEvent = Branch"
| "trigger_kind_table CheckRerunCommit = Branch"
| "trigger_kind_table ReleaseKind = Release"
| "trigger_kind_table CheckRerunRelease = Release"
| "trigger_kind_table IssueCommentKind = Issue"

fun upsert_for :: "TriggerKind \<Rightarrow> EventData \<Rightarrow> GitProject \<Rightarrow> upsert_call" where
  "upsert_for PullRequest e p =
     PullRequestModel_get_or_create (pr_id e) (namespace p) (repo p) (project_url e)"
| "upsert_for Branch e p =
     GitBranchModel_get_or_create (git_ref e) (namespace p) (repo p) (project_url e)"
| "upsert_for Release e p =
     ProjectReleaseModel_get_or_create (tag_name e) (namespace p) (repo p) (project_url e)
       (commit_sha e)"
| "upsert_for Issue e p =
     IssueModel_get_or_create (issue_id e) (namespace p) (repo p) (project_url e)"

text \<open>The upserts of a trace, and how often the resolver of the project ran.\<close>

fun upserts :: "event_effect list \<Rightarrow> upsert_call list" where
  "upserts [] = []"
| "upserts (Upsert c # tr) = c # upserts tr"
| "upserts (x # tr) = upserts tr"

definition resolver_calls :: "event_effect list \<Rightarrow> nat" where
  "resolver_calls tr = length (filter (\<lambda>x. x = Call_get_project) tr)"

text \<open>Collaborators for the examples: one known project, and a store that numbers by kind.\<close>

definition hello_world :: GitProject where
  "hello_world = \<lparr> namespace = ''packit-service'', repo = ''hello-world'' \<rparr>"

fun kind_of_upsert :: "upsert_call \<Rightarrow> TriggerKind" where
  "kind_of_upsert (PullRequestModel_get_or_create k n r u) = PullRequest"
| "kind_of_upsert (GitBranchModel_get_or_create k n r u) = Branch"
| "kind_of_upsert (ProjectReleaseModel_get_or_create k n r u c) = Release"
| "kind_of_upsert (IssueModel_get_or_create k n r u) = Issue"

definition demo_collaborators :: collaborators where
  "demo_collaborators = \<lparr>
     service_get_project = (\<lambda>url. if url = PStr ''https://github.com/packit-service/hello-world''
                                   then Some hello_world else None),
     get_or_create = (\<lambda>c. \<lparr> job_trigger_model_type = kind_of_upsert c, db_id = 9 \<rparr>) \<rparr>"

definition no_url_event :: EventData where
  "no_url_event = (no_override_event None) \<lparr> project_url := PNone \<rparr>"

definition fresh_state :: event_state where
  "fresh_state = (no_override_event None, [])"

definition project_read_state :: event_state where
  "project_read_state = snd (project demo_collaborators fresh_state)"

definition trigger_read_state :: event_state where
  "trigger_read_state = snd (db_trigger demo_collaborators fresh_state)"

definition pr_trigger :: AbstractTriggerDbType where
  "pr_trigger = \<lparr> job_trigger_model_type = PullRequest, db_id = 9 \<rparr>"

section \<open>The Testing Farm handlers (packit\_service/worker/handlers/testing\_farm.py)\<close>

text \<open>
  What the handlers do to the outside is recorded, in order, in a trace of effects: the
  queries for a build, what a read of the trigger of the event does, the commit statuses
  reported, the metrics pushed, the Celery task sent, the test runs started, the warning
  for an unknown pipeline. The debug and info lines of the log are left out.

  Modelled from the spec: the enumerations \<^verbatim>\<open>TestingFarmResult\<close> and
  \<^verbatim>\<open>BaseCommitStatus\<close> are declared in \<^verbatim>\<open>packit_service.models\<close> and
  \<^verbatim>\<open>packit_service.worker.reporting\<close>, which are not among the sources; their
  members are taken from the states of a test run and from the states of a status report
  in the specification.
\<close>

datatype TestingFarmResult = TF_queued | TF_running | TF_passed | TF_failed | TF_error

datatype BaseCommitStatus =
  Status_pending | Status_running | Status_success | Status_failure | Status_error

datatype metric =
  copr_builds_queued | test_runs_queued | test_runs_started | test_runs_finished
  | test_run_finished_time

text \<open>
  The functions that build a URL or the name of a check live in other modules; their
  results are kept as the call that made them.
\<close>

datatype url =
    Url "string option"
  | Testing_farm_info_url int
  | Copr_build_info_url int

datatype check_names = Test_check "string option"

datatype task = Task_copr_build

record CoprBuildModel =
  copr_id :: int
  status :: string

record TaskResults =
  success :: bool
  details :: pydict

record status_report =
  report_trigger_id :: "int option"
  report_commit_sha :: pyval
  report_pr_id :: pyval
  report_state :: BaseCommitStatus
  report_description :: string
  report_url :: url
  links_to_external_services :: "(string \<times> string option) list"
  report_check_names :: check_names

datatype effect =
    Get_by_id int
  | Get_latest_copr_build string pyval
  | Report_status_to_test_for_chroot BaseCommitStatus string url string
  | Metric_inc metric
  | Metric_observe metric int
  | Apply_async task pydict
  | Run_testing_farm CoprBuildModel string
  | Warning_unknown_pipeline string
  | JobTriggerModel_get_or_create TriggerKind int
  | Report status_report
  | Event_effect event_effect

record JobHandler =
  data :: EventData

subsection \<open>TestingFarmHandler\<close>

text \<open>
  The handler has its event data, the chroot and the build id it was created with, and
  the lazy attribute \<^verbatim>\<open>_db_trigger\<close>, here \<open>tf_priv_db_trigger\<close>, which
  \<^verbatim>\<open>__init__\<close> sets to \<^verbatim>\<open>None\<close>.

  The helper object, the build store and the test service are collaborators. The helper
  computes the targets of the tests from the configuration and from the override (the
  handler's own chroot if it has one, the override of the event otherwise); the list is
  \<^verbatim>\<open>list(testing_farm_helper.tests_targets)\<close>. \<^verbatim>\<open>get_trigger_object\<close> is the
  method of a build that gives its trigger. \<open>event_collaborators\<close> are the service
  configuration and the store that the event data resolves its project and its trigger
  with. \<^verbatim>\<open>repr_list\<close> and \<^verbatim>\<open>repr_dict_keys\<close> are Python's renderings of a list
  of strings and of the keys of a dictionary inside an f-string.
  \<^verbatim>\<open>PG_COPR_BUILD_STATUS_SUCCESS\<close> is a constant of
  \<^verbatim>\<open>packit_service.constants\<close>.
\<close>

record TestingFarmHandler = JobHandler +
  chroot :: "string option"
  build_id :: "int option"
  tf_priv_db_trigger :: "AbstractTriggerDbType option"

record helper =
  tests_targets :: "string list"
  get_by_id :: "int \<Rightarrow> CoprBuildModel option"
  get_trigger_object :: "CoprBuildModel \<Rightarrow> AbstractTriggerDbType option"
  event_collaborators :: collaborators
  get_latest_copr_build :: "string \<Rightarrow> pyval \<Rightarrow> CoprBuildModel option"
  run_testing_farm :: "CoprBuildModel \<Rightarrow> string \<Rightarrow> TaskResults"
  PG_COPR_BUILD_STATUS_SUCCESS :: string
  repr_list :: "string list \<Rightarrow> string"
  repr_dict_keys :: "string list \<Rightarrow> string"
  interp :: interpreter

text \<open>\<^verbatim>\<open>if self.build_id:\<close> An id of zero counts as no id.\<close>

definition build_id_given :: "TestingFarmHandler \<Rightarrow> bool" where
  "build_id_given h = (case build_id h of None \<Rightarrow> False | Some i \<Rightarrow> i \<noteq> 0)"

text \<open>
  The property \<^verbatim>\<open>db_trigger\<close> of the handler. A trigger that was found before is
  returned as it is. Otherwise, with a build id, the build is fetched and asked for its
  trigger, and a missing build raises \<^verbatim>\<open>AttributeError\<close>, \<^verbatim>\<open>None\<close> having no
  method \<^verbatim>\<open>get_trigger_object\<close>; without a build id, the trigger is the trigger of the
  event data, whose read may raise, and changes the event data by what it caches. The
  result is the value or the error, the handler after the read, and the effects of the
  read.
\<close>

definition TestingFarmHandler_db_trigger ::
  "helper \<Rightarrow> TestingFarmHandler
     \<Rightarrow> (error + AbstractTriggerDbType option) \<times> TestingFarmHandler \<times> effect list" where
  "TestingFarmHandler_db_trigger env h =
     (case tf_priv_db_trigger h of
        Some t \<Rightarrow> (Inr (Some t), h, [])
      | None \<Rightarrow>
          if build_id_given h then
            (case get_by_id env (the (build_id h)) of
               None \<Rightarrow> (Inl AttributeError, h, [Get_by_id (the (build_id h))])
             | Some build \<Rightarrow>
                 (Inr (get_trigger_object env build),
                  h\<lparr>tf_priv_db_trigger := get_trigger_object env build\<rparr>,
                  [Get_by_id (the (build_id h))]))
          else
            (case db_trigger (event_collaborators env) (data h, []) of
               (Inl e, (d, evs)) \<Rightarrow> (Inl e, h\<lparr>data := d\<rparr>, map Event_effect evs)
             | (Inr t, (d, evs)) \<Rightarrow>
                 (Inr t, h\<lparr>data := d, tf_priv_db_trigger := t\<rparr>, map Event_effect evs)))"

text \<open>The body of the first loop for one target: the build, and the query that found it.\<close>

definition find_build ::
  "helper \<Rightarrow> TestingFarmHandler \<Rightarrow> string \<Rightarrow> CoprBuildModel option \<times> effect" where
  "find_build env h target =
     (if build_id_given h
      then (get_by_id env (the (build_id h)), Get_by_id (the (build_id h)))
      else (get_latest_copr_build env target (commit_sha (data h)),
            Get_latest_copr_build target (commit_sha (data h))))"

type_synonym partition =
  "(string \<times> CoprBuildModel) list \<times> string list \<times> effect list"

fun partition_targets ::
  "helper \<Rightarrow> TestingFarmHandler \<Rightarrow> string list \<Rightarrow> partition \<Rightarrow> partition" where
  "partition_targets env h [] acc = acc"
| "partition_targets env h (target # ts) (targets_with_builds, targets_without_build, tr) =
     (case find_build env h target of
        (Some copr_build, q) \<Rightarrow>
          partition_targets env h ts
            (dict_set target copr_build targets_with_builds, targets_without_build, tr @ [q])
      | (None, q) \<Rightarrow>
          partition_targets env h ts
            (targets_with_builds, targets_without_build @ [target], tr @ [q]))"

definition missing_build_description :: string where
  "missing_build_description = ''Missing Copr build for this target, running a new Copr build.''"

definition build_failed_description :: string where
  "build_failed_description = ''The latest build was not successful, not running tests for it.''"

text \<open>The block that starts one build for all the targets without a build.\<close>

definition trigger_build ::
  "helper \<Rightarrow> TestingFarmHandler \<Rightarrow> string list \<Rightarrow> effect list \<Rightarrow> pydict \<times> effect list" where
  "trigger_build env h targets_without_build tr =
     (if targets_without_build = [] then ([], tr)
      else
        (let tr = tr @ map (Report_status_to_test_for_chroot Status_pending
                              missing_build_description (Url (Some [])))
                         targets_without_build;
             tr = tr @ replicate (length targets_without_build) (Metric_inc copr_builds_queued);
             event_data = dict_set ''targets_override'' (PList (map PStr targets_without_build))
                            (get_dict (interp env) (data h));
             tr = tr @ [Apply_async Task_copr_build event_data]
         in ([(''msg'', PStr (''Build triggered for targets ''
                               @ repr_list env targets_without_build
                               @ '' missing a Copr build. ''))],
             tr)))"

text \<open>The second loop, over the items of \<^verbatim>\<open>targets_with_builds\<close>.\<close>

fun run_tests ::
  "helper \<Rightarrow> (string \<times> CoprBuildModel) list \<Rightarrow> pydict \<times> effect list \<Rightarrow> pydict \<times> effect list"
  where
  "run_tests env [] acc = acc"
| "run_tests env ((target, copr_build) # items) (failed', tr) =
     (if status copr_build \<noteq> PG_COPR_BUILD_STATUS_SUCCESS env then
        run_tests env items
          (failed',
           tr @ [Report_status_to_test_for_chroot Status_failure build_failed_description
                   (Copr_build_info_url (copr_id copr_build)) target])
      else
        (let tr = tr @ [Metric_inc test_runs_queued, Run_testing_farm copr_build target];
             r = run_testing_farm env copr_build target
         in if \<not> success r
            then run_tests env items (dict_set target (PDict (details r)) failed', tr)
            else run_tests env items (failed', tr)))"

text \<open>\<^verbatim>\<open>d.setdefault("msg", "")\<close> and \<^verbatim>\<open>d.update(failed)\<close>\<close>

definition setdefault_msg :: "pydict \<Rightarrow> pyval \<times> pydict" where
  "setdefault_msg d =
     (case map_of d ''msg'' of
        Some v \<Rightarrow> (v, d)
      | None \<Rightarrow> (PStr [], dict_set ''msg'' (PStr []) d))"

definition dict_update :: "('k \<times> 'v) list \<Rightarrow> ('k \<times> 'v) list \<Rightarrow> ('k \<times> 'v) list" where
  "dict_update other d = fold (\<lambda>p. dict_set (fst p) (snd p)) other d"

definition str_of :: "pyval \<Rightarrow> string" where
  "str_of v = (case v of PStr s \<Rightarrow> s | _ \<Rightarrow> [])"

definition failed_message :: "helper \<Rightarrow> pydict \<Rightarrow> string" where
  "failed_message env failed' =
     ''Failed testing farm targets: '' @ [CHR 0x27] @ repr_dict_keys env (map fst failed')
       @ [CHR 0x27] @ ''.''"

text \<open>
  \<^verbatim>\<open>run\<close> from the list of the targets on (lines 112 to 200), for a handler whose
  helper has been built: the two loops, the block between them and the result.
\<close>

definition run_targets :: "helper \<Rightarrow> TestingFarmHandler \<Rightarrow> TaskResults \<times> effect list" where
  "run_targets env h =
     (case partition_targets env h (tests_targets env) ([], [], []) of
        (targets_with_builds, targets_without_build, tr) \<Rightarrow>
          (case trigger_build env h targets_without_build tr of
             (result_details, tr) \<Rightarrow>
               (case run_tests env targets_with_builds ([], tr) of
                  (failed', tr) \<Rightarrow>
                    if failed' = [] then (\<lparr> success = True, details = result_details \<rparr>, tr)
                    else
                      (case setdefault_msg result_details of
                         (msg, result_details) \<Rightarrow>
                           (\<lparr> success = False,
                              details =
                                dict_update failed'
                                  (dict_set ''msg''
                                     (PStr (str_of msg @ failed_message env failed'))
                                     result_details) \<rparr>,
                            tr)))))"

text \<open>
  \<^verbatim>\<open>run\<close>. It builds the helper first, and the arguments of the constructor are
  evaluated before anything else happens: among them \<^verbatim>\<open>self.db_trigger\<close>, the
  property above, whose error ends the run before a target is looked at. The other
  arguments are attributes of \<^verbatim>\<open>JobHandler\<close>, of
  \<^verbatim>\<open>packit_service.worker.handlers.abstract\<close>, which is not among the sources, and
  the override, which only the helper reads; they are taken to have no effect and not to
  raise, and so is the constructor. The rest of the run is appended to the effects of the
  read. The result is the outcome (the error raised or the value returned), the handler
  after the run and the effects of the run.
\<close>

definition run ::
  "helper \<Rightarrow> TestingFarmHandler
     \<Rightarrow> (error + TaskResults) \<times> TestingFarmHandler \<times> effect list" where
  "run env h =
     (case TestingFarmHandler_db_trigger env h of
        (Inl e, h, tr) \<Rightarrow> (Inl e, h, tr)
      | (Inr db_trigger', h, tr) \<Rightarrow>
          (case run_targets env h of
             (result, tr') \<Rightarrow> (Inr result, h, tr @ tr')))"

definition outcome :: "(error + TaskResults) \<times> TestingFarmHandler \<times> effect list
    \<Rightarrow> error + TaskResults" where
  "outcome r = fst r"

definition trace :: "(error + TaskResults) \<times> TestingFarmHandler \<times> effect list
    \<Rightarrow> effect list" where
  "trace r = snd (snd r)"

text \<open>The helper is built when the read of the trigger does not raise.\<close>

definition helper_built :: "helper \<Rightarrow> TestingFarmHandler \<Rightarrow> bool" where
  "helper_built env h = (\<not> isl (fst (TestingFarmHandler_db_trigger env h)))"

text \<open>The handler after the read of the trigger, and the effects of that read.\<close>

definition handler_after_read :: "helper \<Rightarrow> TestingFarmHandler \<Rightarrow> TestingFarmHandler" where
  "handler_after_read env h = fst (snd (TestingFarmHandler_db_trigger env h))"

definition trigger_read_effects :: "helper \<Rightarrow> TestingFarmHandler \<Rightarrow> effect list" where
  "trigger_read_effects env h = snd (snd (TestingFarmHandler_db_trigger env h))"

text \<open>The parts of a run that the properties speak about.\<close>

definition with_build :: "helper \<Rightarrow> TestingFarmHandler \<Rightarrow> (string \<times> CoprBuildModel) list" where
  "with_build env h = fst (partition_targets env h (tests_targets env) ([], [], []))"

definition without_build :: "helper \<Rightarrow> TestingFarmHandler \<Rightarrow> string list" where
  "without_build env h = fst (snd (partition_targets env h (tests_targets env) ([], [], [])))"

fun build_jobs :: "effect list \<Rightarrow> pydict list" where
  "build_jobs [] = []"
| "build_jobs (Apply_async Task_copr_build ev # tr) = ev # build_jobs tr"
| "build_jobs (x # tr) = build_jobs tr"

fun test_jobs :: "effect list \<Rightarrow> (CoprBuildModel \<times> string) list" where
  "test_jobs [] = []"
| "test_jobs (Run_testing_farm b t # tr) = (b, t) # test_jobs tr"
| "test_jobs (x # tr) = test_jobs tr"

fun notifications :: "effect list \<Rightarrow> (BaseCommitStatus \<times> string \<times> url \<times> string) list" where
  "notifications [] = []"
| "notifications (Report_status_to_test_for_chroot s d u c # tr) = (s, d, u, c) # notifications tr"
| "notifications (x # tr) = notifications tr"

fun lookups :: "effect list \<Rightarrow> (string \<times> pyval) list" where
  "lookups [] = []"
| "lookups (Get_latest_copr_build t c # tr) = (t, c) # lookups tr"
| "lookups (x # tr) = lookups tr"

fun id_queries :: "effect list \<Rightarrow> int list" where
  "id_queries [] = []"
| "id_queries (Get_by_id i # tr) = i # id_queries tr"
| "id_queries (x # tr) = id_queries tr"

text \<open>
  One step of each loop, as a function of the dictionary it fills: the first loop stores
  the build of a target that has one, the second stores the details of a test run that
  was started and did not succeed.
\<close>

definition add_build ::
  "helper \<Rightarrow> TestingFarmHandler \<Rightarrow> string
     \<Rightarrow> (string \<times> CoprBuildModel) list \<Rightarrow> (string \<times> CoprBuildModel) list" where
  "add_build env h t w = (case fst (find_build env h t) of Some b \<Rightarrow> dict_set t b w | None \<Rightarrow> w)"

definition failing :: "helper \<Rightarrow> string \<times> CoprBuildModel \<Rightarrow> bool" where
  "failing env p =
     (status (snd p) = PG_COPR_BUILD_STATUS_SUCCESS env
      \<and> \<not> success (run_testing_farm env (snd p) (fst p)))"

definition add_failed :: "helper \<Rightarrow> string \<times> CoprBuildModel \<Rightarrow> pydict \<Rightarrow> pydict" where
  "add_failed env p f =
     (if failing env p
      then dict_set (fst p) (PDict (details (run_testing_farm env (snd p) (fst p)))) f
      else f)"

definition queries :: "helper \<Rightarrow> TestingFarmHandler \<Rightarrow> effect list" where
  "queries env h = map (\<lambda>t. snd (find_build env h t)) (tests_targets env)"

definition build_event :: "helper \<Rightarrow> TestingFarmHandler \<Rightarrow> pydict" where
  "build_event env h =
     dict_set ''targets_override'' (PList (map PStr (without_build env h)))
       (get_dict (interp env) (data h))"

definition failed_targets :: "helper \<Rightarrow> TestingFarmHandler \<Rightarrow> string list" where
  "failed_targets env h = map fst (filter (failing env) (with_build env h))"

text \<open>Collaborators and handlers for the examples.\<close>

definition successful_build :: "int \<Rightarrow> CoprBuildModel" where
  "successful_build i = \<lparr> copr_id = i, status = ''success'' \<rparr>"

definition example_helper ::
  "string list \<Rightarrow> (string \<Rightarrow> CoprBuildModel option) \<Rightarrow> bool \<Rightarrow> helper" where
  "example_helper ts builds tests_pass = \<lparr>
     tests_targets = ts,
     get_by_id = (\<lambda>i. if i = 7 then Some (successful_build 7) else None),
     get_trigger_object = (\<lambda>b. Some pr_trigger),
     event_collaborators = demo_collaborators,
     get_latest_copr_build = (\<lambda>t c. builds t),
     run_testing_farm = (\<lambda>b t. \<lparr> success = tests_pass,
                                    details = (if tests_pass then []
                                               else [(''msg'', PStr ''Failed to submit tests'')]) \<rparr>),
     PG_COPR_BUILD_STATUS_SUCCESS = ''success'',
     repr_list = concat,
     repr_dict_keys = concat,
     interp = no_enum \<rparr>"

definition example_handler :: "int option \<Rightarrow> TestingFarmHandler" where
  "example_handler b = \<lparr> data = no_override_event None, chroot = None, build_id = b,
                         tf_priv_db_trigger = None \<rparr>"

text \<open>A handler for an event that has no project URL.\<close>

definition no_url_handler :: TestingFarmHandler where
  "no_url_handler = \<lparr> data = no_url_event, chroot = None, build_id = None,
                      tf_priv_db_trigger = None \<rparr>"

definition all_built :: "string \<Rightarrow> CoprBuildModel option" where
  "all_built t = Some (successful_build 1)"

definition none_built :: "string \<Rightarrow> CoprBuildModel option" where
  "none_built t = None"

definition two_targets :: "string list" where
  "two_targets = [''fedora-rawhide-x86_64'', ''fedora-35-x86_64'']"

subsection \<open>TestingFarmResultsHandler\<close>

text \<open>
  The handler of a completion callback. Its fields are the fields of the callback as
  \<^verbatim>\<open>__init__\<close> reads them, and the lazy attribute \<^verbatim>\<open>_db_trigger\<close>, here
  \<open>cached_db_trigger\<close>. The store of test runs maps a pipeline id to its record; the
  record keeps the id of the run, its status, its web URL, the time it was submitted and
  the trigger it belongs to. The clock and the store of job triggers are collaborators.
\<close>

record TFTTestRunModel =
  run_id :: int
  run_status :: "TestingFarmResult option"
  web_url :: "string option"
  submitted_time :: int
  trigger_object :: AbstractTriggerDbType

record TestingFarmResultsHandler = JobHandler +
  result :: "TestingFarmResult option"
  pipeline_id :: string
  log_url :: "string option"
  copr_chroot :: "string option"
  summary :: "string option"
  cached_db_trigger :: "AbstractTriggerDbType option"

record results_env =
  now :: int
  job_trigger_get_or_create :: "TriggerKind \<Rightarrow> int \<Rightarrow> int option"

record results_state =
  test_runs :: "string \<Rightarrow> TFTTestRunModel option"
  handler :: TestingFarmResultsHandler
  effects :: "effect list"

definition emit :: "effect \<Rightarrow> results_state \<Rightarrow> results_state" where
  "emit x st = st\<lparr>effects := effects st @ [x]\<rparr>"

text \<open>\<^verbatim>\<open>self.summary or "..."\<close>: the default stands in for a missing or empty summary.\<close>

definition summary_or :: "string option \<Rightarrow> string \<Rightarrow> string" where
  "summary_or s d = (case s of None \<Rightarrow> d | Some x \<Rightarrow> if x = [] then d else x)"

text \<open>The chain of comparisons that picks the status and the summary of the report.\<close>

definition status_and_summary ::
  "TestingFarmResult option \<Rightarrow> string option \<Rightarrow> BaseCommitStatus \<times> string" where
  "status_and_summary r s =
     (if r = Some TF_running then (Status_running, summary_or s ''Tests are running ...'')
      else if r = Some TF_passed then (Status_success, summary_or s ''Tests passed ...'')
      else if r = Some TF_error then (Status_error, summary_or s ''Error ...'')
      else (Status_failure, summary_or s ''Tests failed ...''))"

text \<open>\<^verbatim>\<open>test_run_model.set_status\<close> and \<^verbatim>\<open>set_web_url\<close>, on the record of a pipeline.\<close>

definition set_status :: "string \<Rightarrow> TestingFarmResult option \<Rightarrow> results_state \<Rightarrow> results_state"
  where
  "set_status pid r st =
     st\<lparr>test_runs := (\<lambda>k. if k = pid then map_option (\<lambda>m. m\<lparr>run_status := r\<rparr>) (test_runs st k)
                              else test_runs st k)\<rparr>"

definition set_web_url :: "string \<Rightarrow> string option \<Rightarrow> results_state \<Rightarrow> results_state" where
  "set_web_url pid u st =
     st\<lparr>test_runs := (\<lambda>k. if k = pid then map_option (\<lambda>m. m\<lparr>web_url := u\<rparr>) (test_runs st k)
                              else test_runs st k)\<rparr>"

text \<open>
  The property \<^verbatim>\<open>db_trigger\<close> of the handler: the trigger of the run of the pipeline,
  cached once found; \<^verbatim>\<open>None\<close> while the pipeline has no run.
\<close>

definition handler_db_trigger ::
  "results_state \<Rightarrow> AbstractTriggerDbType option \<times> results_state" where
  "handler_db_trigger st =
     (case cached_db_trigger (handler st) of
        Some t \<Rightarrow> (Some t, st)
      | None \<Rightarrow>
          (case test_runs st (pipeline_id (handler st)) of
             Some run_model \<Rightarrow>
               (Some (trigger_object run_model),
                st\<lparr>handler := (handler st)\<lparr>cached_db_trigger := Some (trigger_object run_model)\<rparr>\<rparr>)
           | None \<Rightarrow> (None, st)))"

text \<open>
  The end of \<^verbatim>\<open>run\<close>, from the web URL on: both reads of \<^verbatim>\<open>self.db_trigger\<close>
  take an attribute of the trigger, which raises \<^verbatim>\<open>AttributeError\<close> when there is
  none.
\<close>

definition report_result ::
  "results_env \<Rightarrow> TFTTestRunModel option \<Rightarrow> BaseCommitStatus \<times> string \<Rightarrow> results_state
     \<Rightarrow> (error + TaskResults) \<times> results_state" where
  "report_result env test_run_model ss st =
     (let h = handler st;
          st = (if test_run_model \<noteq> None then set_web_url (pipeline_id h) (log_url h) st else st)
      in case handler_db_trigger st of
           (None, st) \<Rightarrow> (Inl AttributeError, st)
         | (Some t1, st) \<Rightarrow>
             (case handler_db_trigger st of
                (None, st) \<Rightarrow> (Inl AttributeError, st)
              | (Some t2, st) \<Rightarrow>
                  (let trigger = job_trigger_get_or_create env (job_trigger_model_type t1) (db_id t2);
                       st = emit (JobTriggerModel_get_or_create (job_trigger_model_type t1)
                                    (db_id t2)) st;
                       st = emit (Report \<lparr>
                              report_trigger_id = trigger,
                              report_commit_sha = commit_sha (data h),
                              report_pr_id = pr_id (data h),
                              report_state = fst ss,
                              report_description = snd ss,
                              report_url = (case test_run_model of
                                              Some m \<Rightarrow> Testing_farm_info_url (run_id m)
                                            | None \<Rightarrow> Url (log_url h)),
                              links_to_external_services = [(''Testing Farm'', log_url h)],
                              report_check_names = Test_check (copr_chroot h) \<rparr>) st
                   in (Inr \<lparr> success = True, details = [] \<rparr>, st))))"

definition results_run ::
  "results_env \<Rightarrow> results_state \<Rightarrow> (error + TaskResults) \<times> results_state" where
  "results_run env st =
     (let h = handler st;
          test_run_model = test_runs st (pipeline_id h);
          st = (if test_run_model = None then emit (Warning_unknown_pipeline (pipeline_id h)) st
                else st);
          st = (if test_run_model \<noteq> None then set_status (pipeline_id h) (result h) st else st);
          ss = status_and_summary (result h) (summary h)
      in if result h = Some TF_running then
           report_result env test_run_model ss (emit (Metric_inc test_runs_started) st)
         else
           (let st = emit (Metric_inc test_runs_finished) st
            in case test_run_model of
                 None \<Rightarrow> (Inl AttributeError, st)
               | Some m \<Rightarrow>
                   report_result env test_run_model ss
                     (emit (Metric_observe test_run_finished_time (now env - submitted_time m))
                        st)))"

text \<open>The reports and the warnings of a trace.\<close>

fun reports :: "effect list \<Rightarrow> status_report list" where
  "reports [] = []"
| "reports (Report r # tr) = r # reports tr"
| "reports (x # tr) = reports tr"

fun warnings :: "effect list \<Rightarrow> string list" where
  "warnings [] = []"
| "warnings (Warning_unknown_pipeline p # tr) = p # warnings tr"
| "warnings (x # tr) = warnings tr"

text \<open>A callback, a store with one run, and collaborators for the examples.\<close>

definition callback ::
  "string \<Rightarrow> TestingFarmResult option \<Rightarrow> string option \<Rightarrow> TestingFarmResultsHandler" where
  "callback pid r s = \<lparr>
     data = no_override_event None,
     result = r, pipeline_id = pid,
     log_url = Some ''https://artifacts.example/log'',
     copr_chroot = Some ''fedora-rawhide-x86_64'',
     summary = s, cached_db_trigger = None \<rparr>"

definition known_run :: TFTTestRunModel where
  "known_run = \<lparr> run_id = 5, run_status = Some TF_queued, web_url = None,
                  submitted_time = 1600000000000000, trigger_object = pr_trigger \<rparr>"

definition one_run_store :: "string \<Rightarrow> TFTTestRunModel option" where
  "one_run_store k = (if k = ''known-pipeline'' then Some known_run else None)"

definition example_env :: results_env where
  "example_env = \<lparr> now = 1600000060000000, job_trigger_get_or_create = (\<lambda>k i. Some 123) \<rparr>"

definition start_state :: "TestingFarmResultsHandler \<Rightarrow> results_state" where
  "start_state h = \<lparr> test_runs = one_run_store, handler = h, effects = [] \<rparr>"

section \<open>The commands of a comment\<close>

text \<open>
  Modelled from the spec: \<^verbatim>\<open>get_packit_commands_from_comment\<close> is defined in
  \<^verbatim>\<open>packit_service.worker.jobs\<close>, which is not among the sources; only its tests
  are. The specification has it scan the body of a comment line by line: a line
  qualifies when, trimmed of the white space around it, it is the token \<^verbatim>\<open>/packit\<close>,
  white space, the name of a command and, optionally, arguments; every qualifying line
  yields a command, in the order of the lines, and no qualifying line yields the empty
  list. Whether the name is one that a handler knows is decided when handlers are
  matched, not here.

  A command is the name and the list of its arguments. The specification says white
  space and no more; it is taken here as the space and the characters from tab to
  carriage return.
\<close>

definition is_space :: "char \<Rightarrow> bool" where
  "is_space c = (c = CHR '' '' \<or> c = CHR 0x09 \<or> c = CHR 0x0A \<or> c = CHR 0x0B
                 \<or> c = CHR 0x0C \<or> c = CHR 0x0D)"

definition strip :: "string \<Rightarrow> string" where
  "strip s = rev (dropWhile is_space (rev (dropWhile is_space s)))"

text \<open>\<^verbatim>\<open>s.split("\n")\<close>: the lines of a text, an empty text having one empty line.\<close>

fun split_lines :: "string \<Rightarrow> string list" where
  "split_lines [] = [[]]"
| "split_lines (c # cs) =
     (if c = CHR 0x0A then [] # split_lines cs
      else (case split_lines cs of l # ls \<Rightarrow> (c # l) # ls | [] \<Rightarrow> [[c]]))"

text \<open>
  \<^verbatim>\<open>s.split()\<close>: the tokens of a line, separated by runs of white space. The first
  argument is the token being read.
\<close>

fun tokens_from :: "string \<Rightarrow> string \<Rightarrow> string list" where
  "tokens_from tok [] = (if tok = [] then [] else [tok])"
| "tokens_from tok (c # cs) =
     (if is_space c then (if tok = [] then tokens_from [] cs else tok # tokens_from [] cs)
      else tokens_from (tok @ [c]) cs)"

definition tokens :: "string \<Rightarrow> string list" where
  "tokens s = tokens_from [] s"

type_synonym command = "string \<times> string list"

definition command_of_line :: "string \<Rightarrow> command option" where
  "command_of_line l =
     (case tokens (strip l) of
        mark # name # args \<Rightarrow> if mark = ''/packit'' then Some (name, args) else None
      | _ \<Rightarrow> None)"

definition get_packit_commands_from_comment :: "string \<Rightarrow> command list" where
  "get_packit_commands_from_comment comment =
     List.map_filter command_of_line (split_lines comment)"

text \<open>
  The words of the property, stated on the characters of a line: trimmed, the line
  starts with \<^verbatim>\<open>/packit\<close>, white space follows, and after the white space something is
  left, the name of the command.
\<close>

definition qualifying_line :: "string \<Rightarrow> bool" where
  "qualifying_line l =
     (let t = strip l; r = drop 7 t
      in take 7 t = ''/packit'' \<and> r \<noteq> [] \<and> is_space (hd r) \<and> dropWhile is_space r \<noteq> [])"

definition newline :: string where
  "newline = [CHR 0x0A]"

section \<open>Serialisation of EventData\<close>




lemma get_dict_explicit:
  "get_dict rt e =
     [(''event_type'', event_type e), (''user_login'', user_login e),
      (''trigger_id'', trigger_id e), (''project_url'', project_url e),
      (''tag_name'', tag_name e), (''git_ref'', git_ref e), (''pr_id'', pr_id e),
      (''commit_sha'', commit_sha e), (''identifier'', identifier' e),
      (''event_dict'', event_dict e), (''issue_id'', issue_id e),
      (''task_accepted_time'', tat_entry rt (task_accepted_time e)),
      (''targets_override'', override_entry rt (targets_override e))]"
  by (simp add: get_dict_def dunder_dict_def dict_pop_def opt_val_def Let_def
      tat_entry_def override_entry_def split: option.split)











section \<open>Memoisation of the lazy attributes\<close>

lemma project_cached:
  "priv_project (fst s) = Some p \<Longrightarrow> project env s = (Some p, s)"
  by (simp add: project_def)

lemma project_Some_caches:
  assumes "project env s = (Some p, s')"
  shows "priv_project (fst s') = Some p"
  using assms
  by (auto simp: project_def get_project_def split: option.splits prod.splits if_splits)

lemma project_keeps_db_trigger:
  "priv_db_trigger (fst (snd (project env s))) = priv_db_trigger (fst s)"
  by (auto simp: project_def get_project_def split: option.splits prod.splits if_splits)

lemma project_keeps_cached:
  "priv_project (fst s) = Some p \<Longrightarrow> priv_project (fst (snd (project env s))) = Some p"
  by (simp add: project_cached)

lemma upsert_with_keeps_project:
  assumes "priv_project (fst s) = Some p"
  shows "priv_project (fst (snd (upsert_with env s mk))) = Some p"
proof -
  obtain e tr where s: "s = (e, tr)" by (cases s)
  with assms have "priv_project e = Some p" by simp
  then show ?thesis
    by (simp add: upsert_with_def s project_def Let_def)
qed

lemma upsert_with_Some_caches:
  assumes "upsert_with env s mk = (Inr (Some t), s')"
  shows "priv_db_trigger (fst s') = Some t"
  using assms
  by (auto simp: upsert_with_def Let_def split: option.splits prod.splits)

lemma db_trigger_cached:
  "priv_db_trigger (fst s) = Some t \<Longrightarrow> db_trigger env s = (Inr (Some t), s)"
  by (cases s) (simp add: db_trigger_def)

lemma db_trigger_Some_caches:
  assumes "db_trigger env s = (Inr (Some t), s')"
  shows "priv_db_trigger (fst s') = Some t"
proof (cases "priv_db_trigger (fst s)")
  case (Some t0)
  with assms db_trigger_cached[OF Some, of env] show ?thesis by simp
next
  case None
  obtain e tr where s: "s = (e, tr)" by (cases s)
  from None s have n: "priv_db_trigger e = None" by simp
  from assms show ?thesis
    unfolding s db_trigger_def
    by (simp add: n split: if_splits) (auto dest: upsert_with_Some_caches)
qed

lemma db_trigger_keeps_project:
  assumes "priv_project (fst s) = Some p"
  shows "priv_project (fst (snd (db_trigger env s))) = Some p"
proof -
  obtain e tr where s: "s = (e, tr)" by (cases s)
  from assms s have p: "priv_project e = Some p" by simp
  have u: "\<And>mk. priv_project (fst (snd (upsert_with env (e, tr) mk))) = Some p"
    using upsert_with_keeps_project[of "(e, tr)" p env] p by simp
  show ?thesis
    unfolding s db_trigger_def by (simp add: p u split: option.splits)
qed

lemma reads_fixed:
  assumes "read s' = (v, s')"
  shows "((\<lambda>s. snd (read s)) ^^ n) s' = s'"
  by (induction n) (simp_all add: assms)

text \<open>
  C9 (as amended). Once a read of \<^verbatim>\<open>project\<close> or \<^verbatim>\<open>db_trigger\<close> has produced a
  value other than \<^verbatim>\<open>None\<close>, the value is cached: every later read, however many,
  returns that value, calls no collaborator, invokes no resolver and leaves the object as
  it is; the first such read of \<^verbatim>\<open>project\<close> invokes the resolver once; and a read of
  one attribute leaves the cached value of the other in place.
\<close>

theorem lazy_attributes_memoized:
  "(project env s1 = (Some p1, s1') \<longrightarrow>
      project env s1' = (Some p1, s1')
      \<and> project env (((\<lambda>s. snd (project env s)) ^^ n) s1') = (Some p1, s1'))
   \<and> (project env s2 = (Some p2, s2') \<and> priv_project (fst s2) = None \<longrightarrow>
      resolver_calls (snd s2') = Suc (resolver_calls (snd s2)))
   \<and> (db_trigger env s3 = (Inr (Some t3), s3') \<longrightarrow>
      db_trigger env s3' = (Inr (Some t3), s3')
      \<and> db_trigger env (((\<lambda>s. snd (db_trigger env s)) ^^ m) s3') = (Inr (Some t3), s3'))
   \<and> (priv_project (fst s4) = Some p4 \<longrightarrow>
      priv_project (fst (snd (db_trigger env s4))) = Some p4)
   \<and> (priv_db_trigger (fst s5) = Some t5 \<longrightarrow>
      priv_db_trigger (fst (snd (project env s5))) = Some t5)"
proof (intro conjI impI)
  assume a: "project env s1 = (Some p1, s1')"
  show f: "project env s1' = (Some p1, s1')"
    by (rule project_cached[OF project_Some_caches[OF a]])
  show "project env (((\<lambda>s. snd (project env s)) ^^ n) s1') = (Some p1, s1')"
    by (simp only: reads_fixed[of "project env", OF f] f)
next
  assume "project env s2 = (Some p2, s2') \<and> priv_project (fst s2) = None"
  then show "resolver_calls (snd s2') = Suc (resolver_calls (snd s2))"
    by (cases s2) (auto simp: project_def get_project_def resolver_calls_def split: if_splits)
next
  assume a: "db_trigger env s3 = (Inr (Some t3), s3')"
  show f: "db_trigger env s3' = (Inr (Some t3), s3')"
    by (rule db_trigger_cached[OF db_trigger_Some_caches[OF a]])
  show "db_trigger env (((\<lambda>s. snd (db_trigger env s)) ^^ m) s3') = (Inr (Some t3), s3')"
    by (simp only: reads_fixed[of "db_trigger env", OF f] f)
next
  assume "priv_project (fst s4) = Some p4"
  then show "priv_project (fst (snd (db_trigger env s4))) = Some p4"
    by (rule db_trigger_keeps_project)
next
  assume "priv_db_trigger (fst s5) = Some t5"
  then show "priv_db_trigger (fst (snd (project env s5))) = Some t5"
    by (simp add: project_keeps_db_trigger)
qed

lemma fresh_project:
  "project demo_collaborators fresh_state = (Some hello_world, project_read_state)"
  by (simp add: project_read_state_def fresh_state_def project_def get_project_def
        demo_collaborators_def no_override_event_def)

lemma fresh_db_trigger:
  "db_trigger demo_collaborators fresh_state = (Inr (Some pr_trigger), trigger_read_state)"
  by (simp add: trigger_read_state_def pr_trigger_def fresh_state_def db_trigger_def
        upsert_with_def project_def get_project_def demo_collaborators_def
        no_override_event_def is_in_def pull_request_event_types_def Let_def hello_world_def)

theorem lazy_attributes_memoized_witness:
  "project demo_collaborators fresh_state = (Some hello_world, project_read_state)
   \<and> priv_project (fst fresh_state) = None
   \<and> db_trigger demo_collaborators fresh_state = (Inr (Some pr_trigger), trigger_read_state)
   \<and> priv_project (fst project_read_state) = Some hello_world
   \<and> priv_db_trigger (fst trigger_read_state) = Some pr_trigger
   \<and> project demo_collaborators project_read_state = (Some hello_world, project_read_state)
   \<and> project demo_collaborators
        (((\<lambda>s. snd (project demo_collaborators s)) ^^ 3) project_read_state)
       = (Some hello_world, project_read_state)
   \<and> resolver_calls (snd project_read_state) = Suc (resolver_calls (snd fresh_state))
   \<and> db_trigger demo_collaborators trigger_read_state = (Inr (Some pr_trigger), trigger_read_state)
   \<and> priv_project (fst (snd (db_trigger demo_collaborators project_read_state)))
       = Some hello_world
   \<and> priv_db_trigger (fst (snd (project demo_collaborators trigger_read_state)))
       = Some pr_trigger"
proof -
  have h2: "priv_project (fst fresh_state) = None"
    by (simp add: fresh_state_def no_override_event_def)
  have h4: "priv_project (fst project_read_state) = Some hello_world"
    using fresh_project by (rule project_Some_caches)
  have h5: "priv_db_trigger (fst trigger_read_state) = Some pr_trigger"
    using fresh_db_trigger by (rule db_trigger_Some_caches)
  show ?thesis
    using lazy_attributes_memoized[of demo_collaborators fresh_state hello_world
        project_read_state 3 fresh_state hello_world project_read_state
        fresh_state pr_trigger trigger_read_state 0
        project_read_state hello_world trigger_read_state pr_trigger]
      fresh_project fresh_db_trigger h2 h4 h5
    by simp
qed

text \<open>
  An event without a project URL has no project: the resolver returns \<^verbatim>\<open>None\<close>,
  nothing is cached, and the second read invokes the resolver a second time.
\<close>

theorem lazy_project_resolved_twice_counterexample:
  "fst (project demo_collaborators (no_url_event, [])) = None
   \<and> resolver_calls (snd (snd (project demo_collaborators (no_url_event, [])))) = 1
   \<and> resolver_calls
        (snd (snd (project demo_collaborators
                     (snd (project demo_collaborators (no_url_event, [])))))) = 2"
  by (simp add: project_def get_project_def no_url_event_def no_override_event_def
        resolver_calls_def)

section \<open>The trigger of an event\<close>

lemma upserts_append: "upserts (a @ b) = upserts a @ upserts b"
  by (induction a rule: upserts.induct) simp_all

lemma upserts_project: "upserts (snd (snd (project env s))) = upserts (snd s)"
  by (cases s)
     (auto simp: project_def get_project_def upserts_append split: option.splits if_splits)

lemma upsert_with_resolved:
  assumes "fst (project env s) = Some p"
  shows "fst (upsert_with env s mk) = Inr (Some (get_or_create env (mk (namespace p) (repo p))))
         \<and> upserts (snd (snd (upsert_with env s mk)))
             = upserts (snd s) @ [mk (namespace p) (repo p)]"
proof -
  obtain s1 where 1: "project env s = (Some p, s1)" using assms by (cases "project env s") simp
  have 2: "project env s1 = (Some p, s1)"
    by (rule project_cached[OF project_Some_caches[OF 1]])
  have u: "upserts (snd s1) = upserts (snd s)" using upserts_project[of env s] 1 by simp
  obtain e tr where s1: "s1 = (e, tr)" by (cases s1)
  show ?thesis
    using u by (simp add: upsert_with_def 1 2[unfolded s1] s1 Let_def upserts_append)
qed

lemma kind_pull_request:
  assumes "n \<in> set pull_request_event_types"
  shows "\<exists>k. kind_of_event_type n = Some k \<and> trigger_kind_table k = PullRequest"
proof -
  have "\<forall>m\<in>set pull_request_event_types.
          \<exists>k. kind_of_event_type m = Some k \<and> trigger_kind_table k = PullRequest"
    unfolding pull_request_event_types_def by (simp add: kind_of_event_type_def)
  with assms show ?thesis by blast
qed

lemma kind_push:
  assumes "n \<in> set push_event_types"
  shows "\<exists>k. kind_of_event_type n = Some k \<and> trigger_kind_table k = Branch"
proof -
  have "\<forall>m\<in>set push_event_types.
          \<exists>k. kind_of_event_type m = Some k \<and> trigger_kind_table k = Branch"
    unfolding push_event_types_def by (simp add: kind_of_event_type_def)
  with assms show ?thesis by blast
qed

lemma kind_release:
  assumes "n \<in> set release_event_types"
  shows "\<exists>k. kind_of_event_type n = Some k \<and> trigger_kind_table k = Release"
proof -
  have "\<forall>m\<in>set release_event_types.
          \<exists>k. kind_of_event_type m = Some k \<and> trigger_kind_table k = Release"
    unfolding release_event_types_def by (simp add: kind_of_event_type_def)
  with assms show ?thesis by blast
qed

lemma kind_issue:
  assumes "n \<in> set issue_event_types"
  shows "\<exists>k. kind_of_event_type n = Some k \<and> trigger_kind_table k = Issue"
proof -
  have "\<forall>m\<in>set issue_event_types.
          \<exists>k. kind_of_event_type m = Some k \<and> trigger_kind_table k = Issue"
    unfolding issue_event_types_def by (simp add: kind_of_event_type_def)
  with assms show ?thesis by blast
qed

lemma kind_none:
  "n \<notin> set pull_request_event_types \<Longrightarrow> n \<notin> set push_event_types \<Longrightarrow>
   n \<notin> set release_event_types \<Longrightarrow> n \<notin> set issue_event_types \<Longrightarrow>
     kind_of_event_type n = None"
  by (simp add: pull_request_event_types_def push_event_types_def release_event_types_def
        issue_event_types_def kind_of_event_type_def)

lemma lists_disjoint:
  "n \<in> set pull_request_event_types \<Longrightarrow> n \<notin> set push_event_types"
  "n \<in> set pull_request_event_types \<Longrightarrow> n \<notin> set release_event_types"
  "n \<in> set pull_request_event_types \<Longrightarrow> n \<notin> set issue_event_types"
  "n \<in> set push_event_types \<Longrightarrow> n \<notin> set release_event_types"
  "n \<in> set push_event_types \<Longrightarrow> n \<notin> set issue_event_types"
  "n \<in> set release_event_types \<Longrightarrow> n \<notin> set issue_event_types"
  by (auto simp: pull_request_event_types_def push_event_types_def release_event_types_def
        issue_event_types_def)

lemma db_trigger_branches:
  assumes "priv_db_trigger e = None" "event_type e = PStr n"
  shows "db_trigger env (e, tr) =
     (if n \<in> set pull_request_event_types then
        upsert_with env (e, tr)
          (\<lambda>ns rp. PullRequestModel_get_or_create (pr_id e) ns rp (project_url e))
      else if n \<in> set push_event_types then
        upsert_with env (e, tr)
          (\<lambda>ns rp. GitBranchModel_get_or_create (git_ref e) ns rp (project_url e))
      else if n \<in> set release_event_types then
        upsert_with env (e, tr)
          (\<lambda>ns rp. ProjectReleaseModel_get_or_create (tag_name e) ns rp (project_url e)
                      (commit_sha e))
      else if n \<in> set issue_event_types then
        upsert_with env (e, tr)
          (\<lambda>ns rp. IssueModel_get_or_create (issue_id e) ns rp (project_url e))
      else (Inr None, (e, tr @ [Log_warning])))"
  unfolding db_trigger_def is_in_def by (simp add: assms)

text \<open>
  C8. For an event whose trigger is not cached yet and whose project resolves, the
  trigger is decided by the type of the event alone, through the table: the pull request
  kinds (with the comments and the check rerun of a pull request) upsert a pull request by
  its number, pushes and the check rerun of a commit upsert a branch by its name, releases
  upsert a release by its tag, issue comments upsert an issue by its id, each with the
  namespace, the repository and the project URL; an event type outside the table makes no
  upsert and has no trigger.
\<close>

theorem db_trigger_follows_table:
  assumes "priv_db_trigger e = None"
      and "event_type e = PStr n"
      and "fst (project env (e, tr)) = Some p"
  shows "case kind_of_event_type n of
           None \<Rightarrow>
             fst (db_trigger env (e, tr)) = Inr None
             \<and> upserts (snd (snd (db_trigger env (e, tr)))) = upserts tr
         | Some k \<Rightarrow>
             fst (db_trigger env (e, tr))
               = Inr (Some (get_or_create env (upsert_for (trigger_kind_table k) e p)))
             \<and> upserts (snd (snd (db_trigger env (e, tr))))
               = upserts tr @ [upsert_for (trigger_kind_table k) e p]"
proof -
  note b = db_trigger_branches[OF assms(1,2), of env tr]
  note u = upsert_with_resolved[OF assms(3), simplified]
  consider (pr) "n \<in> set pull_request_event_types"
    | (push) "n \<in> set push_event_types"
    | (rel) "n \<in> set release_event_types"
    | (iss) "n \<in> set issue_event_types"
    | (none) "n \<notin> set pull_request_event_types" "n \<notin> set push_event_types"
             "n \<notin> set release_event_types" "n \<notin> set issue_event_types"
    by blast
  then show ?thesis
  proof cases
    case pr
    from kind_pull_request[OF pr] obtain k where
      k: "kind_of_event_type n = Some k" "trigger_kind_table k = PullRequest" by blast
    show ?thesis unfolding b by (simp add: pr k u)
  next
    case push
    from kind_push[OF push] obtain k where
      k: "kind_of_event_type n = Some k" "trigger_kind_table k = Branch" by blast
    have "n \<notin> set pull_request_event_types" using lists_disjoint(1) push by blast
    then show ?thesis unfolding b by (simp add: push k u)
  next
    case rel
    from kind_release[OF rel] obtain k where
      k: "kind_of_event_type n = Some k" "trigger_kind_table k = Release" by blast
    have "n \<notin> set pull_request_event_types" "n \<notin> set push_event_types"
      using lists_disjoint(2,4) rel by blast+
    then show ?thesis unfolding b by (simp add: rel k u)
  next
    case iss
    from kind_issue[OF iss] obtain k where
      k: "kind_of_event_type n = Some k" "trigger_kind_table k = Issue" by blast
    have "n \<notin> set pull_request_event_types" "n \<notin> set push_event_types"
         "n \<notin> set release_event_types"
      using lists_disjoint(3,5,6) iss by blast+
    then show ?thesis unfolding b by (simp add: iss k u)
  next
    case none
    show ?thesis unfolding b by (simp add: none kind_none[OF none] upserts_append)
  qed
qed

theorem db_trigger_follows_table_witness:
  "priv_db_trigger (no_override_event None) = None
   \<and> event_type (no_override_event None) = PStr ''PullRequestCommentGithubEvent''
   \<and> fst (project demo_collaborators (no_override_event None, [])) = Some hello_world
   \<and> fst (db_trigger demo_collaborators (no_override_event None, [])) = Inr (Some pr_trigger)
   \<and> upserts (snd (snd (db_trigger demo_collaborators (no_override_event None, []))))
       = [PullRequestModel_get_or_create (PInt 9) ''packit-service'' ''hello-world''
            (PStr ''https://github.com/packit-service/hello-world'')]"
proof -
  have h1: "priv_db_trigger (no_override_event None) = None"
   and h2: "event_type (no_override_event None) = PStr ''PullRequestCommentGithubEvent''"
    by (simp_all add: no_override_event_def)
  have h3: "fst (project demo_collaborators (no_override_event None, [])) = Some hello_world"
    using fresh_project by (simp add: fresh_state_def)
  have k: "kind_of_event_type ''PullRequestCommentGithubEvent'' = Some PullRequestCommentEvent"
    by (simp add: kind_of_event_type_def)
  have c: "upsert_for PullRequest (no_override_event None) hello_world
       = PullRequestModel_get_or_create (PInt 9) ''packit-service'' ''hello-world''
            (PStr ''https://github.com/packit-service/hello-world'')"
    by (simp add: no_override_event_def hello_world_def)
  have g: "get_or_create demo_collaborators
        (PullRequestModel_get_or_create (PInt 9) ''packit-service'' ''hello-world''
            (PStr ''https://github.com/packit-service/hello-world'')) = pr_trigger"
    by (simp add: demo_collaborators_def pr_trigger_def)
  show ?thesis
    using db_trigger_follows_table[OF h1 h2 h3] h1 h2 h3
    by (simp add: k c[simplified] g[unfolded c[symmetric], simplified] c g)
qed

section \<open>Reconciling targets and builds\<close>

subsection \<open>Dictionaries\<close>

lemma dict_set_keys: "fst ` set (dict_set k v d) = insert k (fst ` set d)"
  by (induction d) auto

lemma dict_set_distinct: "distinct (map fst d) \<Longrightarrow> distinct (map fst (dict_set k v d))"
  by (induction d) (auto simp: dict_set_keys)

lemma map_of_dict_set: "map_of (dict_set k v d) = (map_of d)(k \<mapsto> v)"
  by (induction d) auto

lemma dict_set_new: "k \<notin> fst ` set d \<Longrightarrow> dict_set k v d = d @ [(k, v)]"
  by (induction d) auto

lemma dict_set_not_empty: "dict_set k v d \<noteq> []"
  by (cases d) auto

subsection \<open>Projections of a trace\<close>

lemma build_jobs_append: "build_jobs (a @ b) = build_jobs a @ build_jobs b"
  by (induction a rule: build_jobs.induct) simp_all

lemma test_jobs_append: "test_jobs (a @ b) = test_jobs a @ test_jobs b"
  by (induction a rule: test_jobs.induct) simp_all

lemma notifications_append: "notifications (a @ b) = notifications a @ notifications b"
  by (induction a rule: notifications.induct) simp_all

lemma lookups_append: "lookups (a @ b) = lookups a @ lookups b"
  by (induction a rule: lookups.induct) simp_all

lemma id_queries_append: "id_queries (a @ b) = id_queries a @ id_queries b"
  by (induction a rule: id_queries.induct) simp_all

lemmas trace_append =
  build_jobs_append test_jobs_append notifications_append lookups_append id_queries_append

lemma of_reports:
  "build_jobs (map (Report_status_to_test_for_chroot s d u) ts) = []"
  "test_jobs (map (Report_status_to_test_for_chroot s d u) ts) = []"
  "lookups (map (Report_status_to_test_for_chroot s d u) ts) = []"
  "id_queries (map (Report_status_to_test_for_chroot s d u) ts) = []"
  "notifications (map (Report_status_to_test_for_chroot s d u) ts) = map (\<lambda>t. (s, d, u, t)) ts"
  by (induction ts) simp_all

lemma of_metrics:
  "build_jobs (replicate n (Metric_inc m)) = []"
  "test_jobs (replicate n (Metric_inc m)) = []"
  "lookups (replicate n (Metric_inc m)) = []"
  "id_queries (replicate n (Metric_inc m)) = []"
  "notifications (replicate n (Metric_inc m)) = []"
  by (induction n) simp_all

subsection \<open>The first loop\<close>

lemma partition_targets_eq:
  "partition_targets env h ts (w, wo, tr) =
     (fold (add_build env h) ts w,
      wo @ filter (\<lambda>t. fst (find_build env h t) = None) ts,
      tr @ map (\<lambda>t. snd (find_build env h t)) ts)"
proof (induction ts arbitrary: w wo tr)
  case Nil
  show ?case by simp
next
  case (Cons t ts)
  show ?case
  proof (cases "find_build env h t")
    case (Pair b q)
    then show ?thesis
      by (cases b) (simp_all add: Cons.IH add_build_def)
  qed
qed

lemma add_build_None: "fst (find_build env h t) = None \<Longrightarrow> add_build env h t w = w"
  by (simp add: add_build_def)

lemma add_build_Some:
  "fst (find_build env h t) = Some b \<Longrightarrow> add_build env h t w = dict_set t b w"
  by (simp add: add_build_def)

lemma fold_add_build_keys:
  "fst ` set (fold (add_build env h) ts w)
     = fst ` set w \<union> {t \<in> set ts. fst (find_build env h t) \<noteq> None}"
proof (induction ts arbitrary: w)
  case Nil
  show ?case by simp
next
  case (Cons t ts)
  show ?case
  proof (cases "fst (find_build env h t)")
    case None
    then show ?thesis by (auto simp: Cons.IH add_build_None)
  next
    case (Some b)
    then show ?thesis by (auto simp: Cons.IH add_build_Some dict_set_keys)
  qed
qed

lemma fold_add_build_distinct:
  "distinct (map fst w) \<Longrightarrow> distinct (map fst (fold (add_build env h) ts w))"
proof (induction ts arbitrary: w)
  case Nil
  then show ?case by simp
next
  case (Cons t ts)
  show ?case
  proof (cases "fst (find_build env h t)")
    case None
    then show ?thesis using Cons by (simp add: add_build_None)
  next
    case (Some b)
    then show ?thesis using Cons by (simp add: add_build_Some dict_set_distinct)
  qed
qed


lemma with_build_eq: "with_build env h = fold (add_build env h) (tests_targets env) []"
  by (simp add: with_build_def partition_targets_eq)

lemma without_build_eq:
  "without_build env h = filter (\<lambda>t. fst (find_build env h t) = None) (tests_targets env)"
  by (simp add: without_build_def partition_targets_eq)

lemma with_build_keys:
  "fst ` set (with_build env h)
     = {t \<in> set (tests_targets env). fst (find_build env h t) \<noteq> None}"
  by (simp add: with_build_eq fold_add_build_keys)

lemma with_build_distinct: "distinct (map fst (with_build env h))"
  by (simp add: with_build_eq fold_add_build_distinct)


subsection \<open>The block that starts a build\<close>

lemma trigger_build_trace:
  "build_jobs (snd (trigger_build env h wo tr))
     = build_jobs tr @ (if wo = [] then []
         else [dict_set ''targets_override'' (PList (map PStr wo))
                 (get_dict (interp env) (data h))])"
  "test_jobs (snd (trigger_build env h wo tr)) = test_jobs tr"
  "lookups (snd (trigger_build env h wo tr)) = lookups tr"
  "id_queries (snd (trigger_build env h wo tr)) = id_queries tr"
  "notifications (snd (trigger_build env h wo tr))
     = notifications tr
       @ map (\<lambda>t. (Status_pending, missing_build_description, Url (Some []), t)) wo"
  by (simp_all add: trigger_build_def Let_def trace_append of_reports of_metrics)

lemma trigger_build_details:
  "fst (trigger_build env h wo tr)
     = (if wo = [] then []
        else [(''msg'', PStr (''Build triggered for targets '' @ repr_list env wo
                               @ '' missing a Copr build. ''))])"
  by (simp add: trigger_build_def Let_def)

subsection \<open>The second loop\<close>

lemma run_tests_failed: "fst (run_tests env items (f, tr)) = fold (add_failed env) items f"
proof (induction items arbitrary: f tr)
  case Nil
  show ?case by simp
next
  case (Cons p items)
  obtain t b where p: "p = (t, b)" by (cases p)
  show ?case
    unfolding p by (simp add: Cons.IH add_failed_def failing_def Let_def)
qed

lemma run_tests_trace:
  "test_jobs (snd (run_tests env items (f, tr)))
     = test_jobs tr
       @ map (\<lambda>p. (snd p, fst p))
           (filter (\<lambda>p. status (snd p) = PG_COPR_BUILD_STATUS_SUCCESS env) items)"
  "build_jobs (snd (run_tests env items (f, tr))) = build_jobs tr"
  "lookups (snd (run_tests env items (f, tr))) = lookups tr"
  "id_queries (snd (run_tests env items (f, tr))) = id_queries tr"
  "notifications (snd (run_tests env items (f, tr)))
     = notifications tr
       @ map (\<lambda>p. (Status_failure, build_failed_description,
                    Copr_build_info_url (copr_id (snd p)), fst p))
           (filter (\<lambda>p. status (snd p) \<noteq> PG_COPR_BUILD_STATUS_SUCCESS env) items)"
proof (induction items arbitrary: f tr)
  case Nil
  {
    case 1 show ?case by simp
  next
    case 2 show ?case by simp
  next
    case 3 show ?case by simp
  next
    case 4 show ?case by simp
  next
    case 5 show ?case by simp
  }
next
  case (Cons p items)
  obtain t b where p: "p = (t, b)" by (cases p)
  {
    case 1 show ?case unfolding p by (simp add: Cons.IH Let_def trace_append)
  next
    case 2 show ?case unfolding p by (simp add: Cons.IH Let_def trace_append)
  next
    case 3 show ?case unfolding p by (simp add: Cons.IH Let_def trace_append)
  next
    case 4 show ?case unfolding p by (simp add: Cons.IH Let_def trace_append)
  next
    case 5 show ?case unfolding p by (simp add: Cons.IH Let_def trace_append)
  }
qed

lemma fold_add_failed:
  assumes "distinct (map fst items)" "fst ` set f \<inter> fst ` set items = {}"
  shows "fold (add_failed env) items f
     = f @ map (\<lambda>p. (fst p, PDict (details (run_testing_farm env (snd p) (fst p)))))
             (filter (failing env) items)"
  using assms
proof (induction items arbitrary: f)
  case Nil
  show ?case by simp
next
  case (Cons p items)
  show ?case
  proof (cases "failing env p")
    case False
    then have "add_failed env p f = f" by (simp add: add_failed_def)
    then show ?thesis using Cons False by simp
  next
    case True
    have new: "fst p \<notin> fst ` set f" using Cons.prems(2) by auto
    have a: "add_failed env p f
               = f @ [(fst p, PDict (details (run_testing_farm env (snd p) (fst p))))]"
      using True by (simp add: add_failed_def dict_set_new[OF new])
    have d: "distinct (map fst items)" using Cons.prems(1) by simp
    have i: "fst ` set (f @ [(fst p, PDict (details (run_testing_farm env (snd p) (fst p))))])
               \<inter> fst ` set items = {}"
      using Cons.prems by auto
    show ?thesis using True by (simp add: a Cons.IH[OF d i])
  qed
qed

subsection \<open>A run as a whole\<close>

lemma run_targets_trace:
  "snd (run_targets env h)
     = snd (run_tests env (with_build env h)
              ([], snd (trigger_build env h (without_build env h) (queries env h))))"
  by (simp add: run_targets_def partition_targets_eq with_build_eq without_build_eq queries_def
        split: prod.splits)

lemma run_targets_failed:
  "fst (run_tests env (with_build env h) ([], tr))
     = map (\<lambda>p. (fst p, PDict (details (run_testing_farm env (snd p) (fst p)))))
         (filter (failing env) (with_build env h))"
  by (simp add: run_tests_failed fold_add_failed[OF with_build_distinct])

lemma run_targets_result:
  "fst (run_targets env h) =
     (let result_details = fst (trigger_build env h (without_build env h) (queries env h));
          failed' = map (\<lambda>p. (fst p, PDict (details (run_testing_farm env (snd p) (fst p)))))
                      (filter (failing env) (with_build env h))
      in if failed' = [] then \<lparr> success = True, details = result_details \<rparr>
         else \<lparr> success = False,
                details = dict_update failed'
                  (dict_set ''msg''
                     (PStr (str_of (fst (setdefault_msg result_details))
                            @ failed_message env failed'))
                     (snd (setdefault_msg result_details))) \<rparr>)"
proof -
  obtain rd tr where t: "trigger_build env h (without_build env h) (queries env h) = (rd, tr)"
    by (cases "trigger_build env h (without_build env h) (queries env h)")
  obtain f tr' where r: "run_tests env (with_build env h) ([], tr) = (f, tr')"
    by (cases "run_tests env (with_build env h) ([], tr)")
  have f: "f = map (\<lambda>p. (fst p, PDict (details (run_testing_farm env (snd p) (fst p)))))
                 (filter (failing env) (with_build env h))"
    using run_targets_failed[of env h tr] r by simp
  have "run_targets env h =
      (if f = [] then (\<lparr> success = True, details = rd \<rparr>, tr')
       else (\<lparr> success = False,
                details = dict_update f
                  (dict_set ''msg'' (PStr (str_of (fst (setdefault_msg rd)) @ failed_message env f))
                     (snd (setdefault_msg rd))) \<rparr>, tr'))"
    using t r
    by (simp add: run_targets_def partition_targets_eq with_build_eq[symmetric]
          without_build_eq[symmetric] queries_def[symmetric] split: prod.splits)
  then show ?thesis by (simp add: t f Let_def)
qed

lemma of_id_queries:
  "build_jobs (replicate n (Get_by_id i)) = []"
  "test_jobs (replicate n (Get_by_id i)) = []"
  "notifications (replicate n (Get_by_id i)) = []"
  "lookups (replicate n (Get_by_id i)) = []"
  "id_queries (replicate n (Get_by_id i)) = replicate n i"
  by (induction n) simp_all

lemma of_lookups:
  "build_jobs (map (\<lambda>t. Get_latest_copr_build t c) ts) = []"
  "test_jobs (map (\<lambda>t. Get_latest_copr_build t c) ts) = []"
  "notifications (map (\<lambda>t. Get_latest_copr_build t c) ts) = []"
  "lookups (map (\<lambda>t. Get_latest_copr_build t c) ts) = map (\<lambda>t. (t, c)) ts"
  "id_queries (map (\<lambda>t. Get_latest_copr_build t c) ts) = []"
  by (induction ts) simp_all

lemma find_build_queries:
  "map (\<lambda>t. snd (find_build env h t)) ts
     = (if build_id_given h then replicate (length ts) (Get_by_id (the (build_id h)))
        else map (\<lambda>t. Get_latest_copr_build t (commit_sha (data h))) ts)"
  by (induction ts) (simp_all add: find_build_def)

lemma find_build_trace:
  "build_jobs (map (\<lambda>t. snd (find_build env h t)) ts) = []"
  "test_jobs (map (\<lambda>t. snd (find_build env h t)) ts) = []"
  "notifications (map (\<lambda>t. snd (find_build env h t)) ts) = []"
  "lookups (map (\<lambda>t. snd (find_build env h t)) ts)
     = (if build_id_given h then [] else map (\<lambda>t. (t, commit_sha (data h))) ts)"
  "id_queries (map (\<lambda>t. snd (find_build env h t)) ts)
     = (if build_id_given h then replicate (length ts) (the (build_id h)) else [])"
  unfolding find_build_queries by (simp_all add: of_id_queries of_lookups)

lemma queries_trace:
  "build_jobs (queries env h) = []"
  "test_jobs (queries env h) = []"
  "notifications (queries env h) = []"
  "lookups (queries env h)
     = (if build_id_given h then []
        else map (\<lambda>t. (t, commit_sha (data h))) (tests_targets env))"
  "id_queries (queries env h)
     = (if build_id_given h then replicate (length (tests_targets env)) (the (build_id h))
        else [])"
  unfolding queries_def by (simp_all only: find_build_trace)

subsection \<open>What a run submits\<close>

lemma run_targets_build_jobs:
  "build_jobs (snd (run_targets env h)) = (if without_build env h = [] then [] else [build_event env h])"
  by (simp add: run_targets_trace run_tests_trace trigger_build_trace queries_trace build_event_def)

lemma run_targets_test_jobs:
  "test_jobs (snd (run_targets env h))
     = map (\<lambda>p. (snd p, fst p))
         (filter (\<lambda>p. status (snd p) = PG_COPR_BUILD_STATUS_SUCCESS env) (with_build env h))"
  by (simp add: run_targets_trace run_tests_trace trigger_build_trace queries_trace)

lemma run_targets_notifications:
  "notifications (snd (run_targets env h))
     = map (\<lambda>t. (Status_pending, missing_build_description, Url (Some []), t))
         (without_build env h)
       @ map (\<lambda>p. (Status_failure, build_failed_description,
                    Copr_build_info_url (copr_id (snd p)), fst p))
           (filter (\<lambda>p. status (snd p) \<noteq> PG_COPR_BUILD_STATUS_SUCCESS env) (with_build env h))"
  by (simp add: run_targets_trace run_tests_trace trigger_build_trace queries_trace)

lemma run_targets_lookups:
  "lookups (snd (run_targets env h))
     = (if build_id_given h then []
        else map (\<lambda>t. (t, commit_sha (data h))) (tests_targets env))"
  by (simp add: run_targets_trace run_tests_trace trigger_build_trace queries_trace)

lemma run_targets_id_queries:
  "id_queries (snd (run_targets env h))
     = (if build_id_given h then replicate (length (tests_targets env)) (the (build_id h))
        else [])"
  by (simp add: run_targets_trace run_tests_trace trigger_build_trace queries_trace)



lemma example_selectors:
  "tests_targets (example_helper ts builds ok) = ts"
  "get_latest_copr_build (example_helper ts builds ok) t c = builds t"
  "get_by_id (example_helper ts builds ok) i = (if i = 7 then Some (successful_build 7) else None)"
  "PG_COPR_BUILD_STATUS_SUCCESS (example_helper ts builds ok) = ''success''"
  "success (run_testing_farm (example_helper ts builds ok) b t) = ok"
  "build_id (example_handler bid) = bid"
  "data (example_handler bid) = no_override_event None"
  "tf_priv_db_trigger (example_handler bid) = None"
  "get_trigger_object (example_helper ts builds ok) b = Some pr_trigger"
  "event_collaborators (example_helper ts builds ok) = demo_collaborators"
  "interp (example_helper ts builds ok) = no_enum"
  by (simp_all add: example_helper_def example_handler_def)


lemma dict_get_dict_set: "dict_get (dict_set k v d) k = v"
  by (simp add: dict_get_def map_of_dict_set)

lemma none_built_parts:
  assumes "\<forall>t\<in>set (tests_targets env). fst (find_build env h t) = None"
  shows "without_build env h = tests_targets env" and "with_build env h = []"
proof -
  show "without_build env h = tests_targets env"
    using assms by (simp add: without_build_eq filter_id_conv)
  have "fst ` set (with_build env h) = {}"
    using assms by (auto simp: with_build_keys)
  then show "with_build env h = []" by simp
qed

lemma run_targets_no_build:
  assumes "tests_targets env \<noteq> []"
      and "\<forall>t\<in>set (tests_targets env). fst (find_build env h t) = None"
  shows "notifications (snd (run_targets env h))
           = map (\<lambda>t. (Status_pending, missing_build_description, Url (Some []), t))
               (tests_targets env)
         \<and> build_jobs (snd (run_targets env h))
           = [dict_set ''targets_override'' (PList (map PStr (tests_targets env)))
                (get_dict (interp env) (data h))]
         \<and> (\<forall>ev\<in>set (build_jobs (snd (run_targets env h))).
               dict_get ev ''targets_override'' = PList (map PStr (tests_targets env)))
         \<and> test_jobs (snd (run_targets env h)) = []"
proof -
  note p = none_built_parts[OF assms(2)]
  have b: "build_jobs (snd (run_targets env h))
           = [dict_set ''targets_override'' (PList (map PStr (tests_targets env)))
                (get_dict (interp env) (data h))]"
    using assms(1) by (simp add: run_targets_build_jobs p build_event_def)
  show ?thesis
    by (simp add: b dict_get_dict_set) (simp add: run_targets_notifications run_targets_test_jobs p)
qed


subsection \<open>A run seeded with a build\<close>

lemma find_build_other_lookup:
  "build_id_given h \<Longrightarrow>
     find_build (env\<lparr>get_latest_copr_build := g\<rparr>) h t = find_build env h t"
  by (simp add: find_build_def)

lemma partition_targets_other_lookup:
  assumes "build_id_given h"
  shows "partition_targets (env\<lparr>get_latest_copr_build := g\<rparr>) h ts acc
           = partition_targets env h ts acc"
proof (induction ts arbitrary: acc)
  case Nil
  show ?case by simp
next
  case (Cons t ts)
  obtain w wo tr where acc: "acc = (w, wo, tr)" by (cases acc)
  show ?case
    unfolding acc
    by (simp add: find_build_other_lookup[OF assms] Cons.IH split: prod.splits option.splits)
qed

lemma run_tests_other_lookup:
  "run_tests (env\<lparr>get_latest_copr_build := g\<rparr>) items acc = run_tests env items acc"
proof (induction items arbitrary: acc)
  case Nil
  show ?case by simp
next
  case (Cons p items)
  obtain t b where p: "p = (t, b)" by (cases p)
  obtain f tr where acc: "acc = (f, tr)" by (cases acc)
  show ?case unfolding p acc by (simp add: Cons.IH Let_def)
qed

lemma trigger_build_other_lookup:
  "trigger_build (env\<lparr>get_latest_copr_build := g\<rparr>) h wo tr = trigger_build env h wo tr"
  by (simp add: trigger_build_def)

lemma tests_targets_other:
  "tests_targets (env\<lparr>get_latest_copr_build := g\<rparr>) = tests_targets env"
  by simp

lemma run_targets_other_lookup:
  assumes "build_id_given h"
  shows "run_targets (env\<lparr>get_latest_copr_build := g\<rparr>) h = run_targets env h"
proof -
  have m: "failed_message (env\<lparr>get_latest_copr_build := g\<rparr>) = failed_message env"
    by (rule ext) (simp add: failed_message_def)
  show ?thesis
    unfolding run_targets_def m tests_targets_other
      partition_targets_other_lookup[OF assms] run_tests_other_lookup
      trigger_build_other_lookup
    by (rule refl)
qed

lemma run_targets_build_id:
  assumes "build_id h = Some i" and "i \<noteq> 0"
  shows "lookups (snd (run_targets env h)) = []
         \<and> id_queries (snd (run_targets env h)) = replicate (length (tests_targets env)) i
         \<and> (\<forall>t. fst (find_build env h t) = get_by_id env i)
         \<and> run_targets (env\<lparr>get_latest_copr_build := g\<rparr>) h = run_targets env h"
proof -
  from assms have g: "build_id_given h" by (simp add: build_id_given_def)
  show ?thesis
    using g assms(1)
    by (simp add: run_targets_lookups run_targets_id_queries find_build_def run_targets_other_lookup)
qed


subsection \<open>The outcome of a run\<close>

lemma map_of_dict_update:
  "map_of (dict_update other d) = map_of d ++ map_of (rev other)"
  unfolding dict_update_def
proof (induction other arbitrary: d)
  case Nil
  show ?case by simp
next
  case (Cons p other)
  show ?case
    by (simp add: Cons.IH map_of_dict_set map_of_append map_add_assoc[symmetric])
      (cases p, simp add: map_add_def fun_eq_iff split: option.splits)
qed

lemma map_of_rev_distinct:
  assumes "distinct (map fst xs)"
  shows "map_of (rev xs) = map_of xs"
proof (rule ext)
  fix k
  have dr: "distinct (map fst (rev xs))"
    by (simp only: rev_map[symmetric] distinct_rev assms)
  show "map_of (rev xs) k = map_of xs k"
  proof (cases "map_of xs k")
    case None
    then have "k \<notin> fst ` set (rev xs)" by (simp add: map_of_eq_None_iff)
    then have "map_of (rev xs) k = None" by (simp add: map_of_eq_None_iff)
    with None show ?thesis by simp
  next
    case (Some v)
    then have "(k, v) \<in> set (rev xs)" by (simp add: map_of_SomeD)
    then have "map_of (rev xs) k = Some v" by (simp only: map_of_eq_Some_iff[OF dr])
    with Some show ?thesis by simp
  qed
qed

lemma failed_distinct:
  "distinct (map fst (map (\<lambda>p. (fst p, f p)) (filter P (with_build env h))))"
proof -
  have c: "fst \<circ> (\<lambda>p. (fst p, f p)) = fst" by (rule ext) simp
  show ?thesis
    using distinct_map_filter[OF with_build_distinct, of P env h] by (simp add: c)
qed

lemma failed_targets_eq:
  "failed_targets env h
     = map snd (filter (\<lambda>p. \<not> success (run_testing_farm env (fst p) (snd p)))
                    (test_jobs (snd (run_targets env h))))"
proof -
  have "\<And>xs. map fst (filter (failing env) xs)
     = map snd (filter (\<lambda>p. \<not> success (run_testing_farm env (fst p) (snd p)))
         (map (\<lambda>p. (snd p, fst p))
            (filter (\<lambda>p. status (snd p) = PG_COPR_BUILD_STATUS_SUCCESS env) xs)))"
    subgoal for xs by (induction xs) (simp_all add: failing_def)
    done
  then show ?thesis by (simp add: failed_targets_def run_targets_test_jobs)
qed

lemma run_targets_success:
  "success (fst (run_targets env h)) \<longleftrightarrow> failed_targets env h = []"
  by (simp add: run_targets_result Let_def failed_targets_def)

lemma run_targets_details_failed:
  assumes "p \<in> set (with_build env h)" "failing env p"
  shows "map_of (details (fst (run_targets env h))) (fst p)
           = Some (PDict (details (run_testing_farm env (snd p) (fst p))))"
proof -
  let ?f = "map (\<lambda>p. (fst p, PDict (details (run_testing_farm env (snd p) (fst p)))))
              (filter (failing env) (with_build env h))"
  have ne: "?f \<noteq> []" using assms by (auto simp: filter_empty_conv)
  have m: "(fst p, PDict (details (run_testing_farm env (snd p) (fst p)))) \<in> set ?f"
    using assms by auto
  have "map_of ?f (fst p) = Some (PDict (details (run_testing_farm env (snd p) (fst p))))"
    using m by (simp only: map_of_eq_Some_iff[OF failed_distinct])
  then have "map_of (rev ?f) (fst p)
               = Some (PDict (details (run_testing_farm env (snd p) (fst p))))"
    by (simp only: map_of_rev_distinct[OF failed_distinct])
  then show ?thesis
    using ne by (simp add: run_targets_result Let_def map_of_dict_update)
qed

lemma run_targets_details_msg:
  assumes "failed_targets env h \<noteq> []" "''msg'' \<notin> set (failed_targets env h)"
  shows "map_of (details (fst (run_targets env h))) ''msg''
     = Some (PStr (str_of (fst (setdefault_msg
                      (fst (trigger_build env h (without_build env h) (queries env h)))))
                   @ ''Failed testing farm targets: '' @ [CHR 0x27]
                   @ repr_dict_keys env (failed_targets env h) @ [CHR 0x27] @ ''.''))"
proof -
  let ?f = "map (\<lambda>p. (fst p, PDict (details (run_testing_farm env (snd p) (fst p)))))
              (filter (failing env) (with_build env h))"
  have k: "map fst ?f = failed_targets env h" by (simp add: failed_targets_def comp_def)
  have k2: "map (fst \<circ> (\<lambda>p. (fst p, PDict (details (run_testing_farm env (snd p) (fst p))))))
              (filter (failing env) (with_build env h)) = failed_targets env h"
    by (simp add: failed_targets_def comp_def)
  have ne: "?f \<noteq> []" using assms(1) k by auto
  have "fst ` set ?f = set (failed_targets env h)"
    unfolding k[symmetric] by (simp only: set_map)
  with assms(2) have "''msg'' \<notin> fst ` set ?f" by (simp only: not_False_eq_True)
  then have "map_of ?f ''msg'' = None" by (rule map_of_eq_None_iff[THEN iffD2])
  then have n: "map_of (rev ?f) ''msg'' = None"
    by (simp only: map_of_rev_distinct[OF failed_distinct])
  show ?thesis
    using ne n
    by (simp add: run_targets_result Let_def map_of_dict_update map_add_def map_of_dict_set
          failed_message_def k2)
qed

lemma test_job_origin:
  assumes "p \<in> set (test_jobs (snd (run_targets env h)))"
  shows "(snd p, fst p) \<in> set (with_build env h)
         \<and> status (fst p) = PG_COPR_BUILD_STATUS_SUCCESS env"
  using assms by (auto simp: run_targets_test_jobs)

lemma run_targets_outcome:
  "(success (fst (run_targets env h))
      \<longleftrightarrow> (\<forall>p\<in>set (test_jobs (snd (run_targets env h))).
             success (run_testing_farm env (fst p) (snd p))))
   \<and> (\<forall>p\<in>set (with_build env h).
         status (snd p) \<noteq> PG_COPR_BUILD_STATUS_SUCCESS env \<longrightarrow>
           (Status_failure, build_failed_description,
            Copr_build_info_url (copr_id (snd p)), fst p)
             \<in> set (notifications (snd (run_targets env h)))
           \<and> fst p \<notin> snd ` set (test_jobs (snd (run_targets env h))))
   \<and> (\<forall>p\<in>set (test_jobs (snd (run_targets env h))).
         \<not> success (run_testing_farm env (fst p) (snd p)) \<longrightarrow>
           \<not> success (fst (run_targets env h))
           \<and> map_of (details (fst (run_targets env h))) (snd p)
               = Some (PDict (details (run_testing_farm env (fst p) (snd p)))))
   \<and> failed_targets env h
       = map snd (filter (\<lambda>p. \<not> success (run_testing_farm env (fst p) (snd p)))
                     (test_jobs (snd (run_targets env h))))
   \<and> (failed_targets env h \<noteq> [] \<and> ''msg'' \<notin> set (failed_targets env h) \<longrightarrow>
         (\<exists>prefix. map_of (details (fst (run_targets env h))) ''msg''
            = Some (PStr (prefix @ ''Failed testing farm targets: '' @ [CHR 0x27]
                          @ repr_dict_keys env (failed_targets env h) @ [CHR 0x27] @ ''.''))))"
proof (intro conjI ballI impI)
  show "success (fst (run_targets env h))
      \<longleftrightarrow> (\<forall>p\<in>set (test_jobs (snd (run_targets env h))).
             success (run_testing_farm env (fst p) (snd p)))"
    by (simp add: run_targets_success failed_targets_eq filter_empty_conv)
next
  fix p assume p: "p \<in> set (with_build env h)"
    and s: "status (snd p) \<noteq> PG_COPR_BUILD_STATUS_SUCCESS env"
  show "(Status_failure, build_failed_description, Copr_build_info_url (copr_id (snd p)), fst p)
          \<in> set (notifications (snd (run_targets env h)))"
    using p s by (auto simp: run_targets_notifications)
  show "fst p \<notin> snd ` set (test_jobs (snd (run_targets env h)))"
  proof
    assume "fst p \<in> snd ` set (test_jobs (snd (run_targets env h)))"
    then obtain q where q: "q \<in> set (test_jobs (snd (run_targets env h)))" "snd q = fst p" by auto
    from test_job_origin[OF q(1)] q(2) have
      "(fst p, fst q) \<in> set (with_build env h)"
      "status (fst q) = PG_COPR_BUILD_STATUS_SUCCESS env" by simp_all
    moreover from p have "(fst p, snd p) \<in> set (with_build env h)" by simp
    ultimately have "fst q = snd p"
      using eq_key_imp_eq_value[OF with_build_distinct] by blast
    with \<open>status (fst q) = PG_COPR_BUILD_STATUS_SUCCESS env\<close> s show False by simp
  qed
next
  fix p assume p: "p \<in> set (test_jobs (snd (run_targets env h)))"
    and f: "\<not> success (run_testing_farm env (fst p) (snd p))"
  from test_job_origin[OF p] have o: "(snd p, fst p) \<in> set (with_build env h)"
    "status (fst p) = PG_COPR_BUILD_STATUS_SUCCESS env" by simp_all
  have fl: "failing env (snd p, fst p)" using o(2) f by (simp add: failing_def)
  from o(1) fl have "snd p \<in> set (failed_targets env h)"
    by (force simp: failed_targets_def)
  then show "\<not> success (fst (run_targets env h))" by (auto simp: run_targets_success)
  show "map_of (details (fst (run_targets env h))) (snd p)
               = Some (PDict (details (run_testing_farm env (fst p) (snd p))))"
    using run_targets_details_failed[OF o(1) fl] by simp
next
  show "failed_targets env h
       = map snd (filter (\<lambda>p. \<not> success (run_testing_farm env (fst p) (snd p)))
                     (test_jobs (snd (run_targets env h))))"
    by (rule failed_targets_eq)
next
  assume a: "failed_targets env h \<noteq> [] \<and> ''msg'' \<notin> set (failed_targets env h)"
  then have "failed_targets env h \<noteq> []" "''msg'' \<notin> set (failed_targets env h)" by simp_all
  from run_targets_details_msg[OF this]
  show "\<exists>prefix. map_of (details (fst (run_targets env h))) ''msg''
            = Some (PStr (prefix @ ''Failed testing farm targets: '' @ [CHR 0x27]
                          @ repr_dict_keys env (failed_targets env h) @ [CHR 0x27] @ ''.''))"
    by blast
qed

lemma example_with_build:
  "with_build (example_helper ts all_built ok) (example_handler None)
     = fold (\<lambda>t. dict_set t (successful_build 1)) ts []"
proof -
  have "add_build (example_helper ts all_built ok) (example_handler None)
          = (\<lambda>t. dict_set t (successful_build 1))"
    by (rule ext)+
       (simp add: add_build_def find_build_def build_id_given_def example_selectors all_built_def)
  then show ?thesis by (simp add: with_build_eq example_selectors)
qed

lemma example_failing:
  "failing (example_helper ts all_built False) (t, successful_build 1)"
  by (simp add: failing_def example_selectors successful_build_def)


subsection \<open>Building the helper\<close>

text \<open>
  A read of a lazy attribute of the event data changes the two cached attributes and
  nothing else, so the commit and the dictionary of the event data are what they were.
\<close>

lemma project_public:
  "(fst (snd (project c s)))\<lparr>priv_project := None, priv_db_trigger := None\<rparr>
     = (fst s)\<lparr>priv_project := None, priv_db_trigger := None\<rparr>"
  by (auto simp: project_def get_project_def split: option.splits prod.splits if_splits)

lemma upsert_with_public:
  "(fst (snd (upsert_with c s mk)))\<lparr>priv_project := None, priv_db_trigger := None\<rparr>
     = (fst s)\<lparr>priv_project := None, priv_db_trigger := None\<rparr>"
proof -
  obtain r1 s1 where p1: "project c s = (r1, s1)" by (cases "project c s")
  obtain r2 e2 tr2 where p2: "project c s1 = (r2, (e2, tr2))" by (cases "project c s1") auto
  have a: "(fst s1)\<lparr>priv_project := None, priv_db_trigger := None\<rparr>
             = (fst s)\<lparr>priv_project := None, priv_db_trigger := None\<rparr>"
    using project_public[of c s] p1 by simp
  have b: "e2\<lparr>priv_project := None, priv_db_trigger := None\<rparr>
             = (fst s1)\<lparr>priv_project := None, priv_db_trigger := None\<rparr>"
    using project_public[of c s1] p2 by simp
  show ?thesis
    using a b by (cases r1; cases r2) (simp_all add: upsert_with_def p1 p2 Let_def)
qed

lemma db_trigger_public:
  "(fst (snd (db_trigger c s)))\<lparr>priv_project := None, priv_db_trigger := None\<rparr>
     = (fst s)\<lparr>priv_project := None, priv_db_trigger := None\<rparr>"
proof -
  obtain e tr where s: "s = (e, tr)" by (cases s)
  have u: "\<And>mk. (fst (snd (upsert_with c (e, tr) mk)))
                   \<lparr>priv_project := None, priv_db_trigger := None\<rparr>
                 = e\<lparr>priv_project := None, priv_db_trigger := None\<rparr>"
    using upsert_with_public[of c "(e, tr)"] by simp
  show ?thesis
    unfolding s db_trigger_def by (simp add: u split: option.splits)
qed

lemma get_dict_public:
  assumes "e'\<lparr>priv_project := None, priv_db_trigger := None\<rparr>
             = e\<lparr>priv_project := None, priv_db_trigger := None\<rparr>"
  shows "get_dict rt e' = get_dict rt e" and "commit_sha e' = commit_sha e"
proof -
  have "\<And>x. get_dict rt (x\<lparr>priv_project := None, priv_db_trigger := None\<rparr>) = get_dict rt x"
    by (simp add: get_dict_explicit)
  then show "get_dict rt e' = get_dict rt e" using assms by metis
  have "\<And>x. commit_sha (x\<lparr>priv_project := None, priv_db_trigger := None\<rparr>) = commit_sha x"
    by simp
  then show "commit_sha e' = commit_sha e" using assms by metis
qed

lemma handler_after_read_data:
  "(data (handler_after_read env h))\<lparr>priv_project := None, priv_db_trigger := None\<rparr>
     = (data h)\<lparr>priv_project := None, priv_db_trigger := None\<rparr>"
proof -
  obtain r d evs where t: "db_trigger (event_collaborators env) (data h, []) = (r, (d, evs))"
    by (cases "db_trigger (event_collaborators env) (data h, [])") auto
  have "d\<lparr>priv_project := None, priv_db_trigger := None\<rparr>
          = (data h)\<lparr>priv_project := None, priv_db_trigger := None\<rparr>"
    using db_trigger_public[of "event_collaborators env" "(data h, [])"] t by simp
  then show ?thesis
    by (cases r)
       (simp_all add: handler_after_read_def TestingFarmHandler_db_trigger_def t
          split: option.splits)
qed

lemma handler_after_read_same:
  "build_id (handler_after_read env h) = build_id h"
  "commit_sha (data (handler_after_read env h)) = commit_sha (data h)"
  "get_dict rt (data (handler_after_read env h)) = get_dict rt (data h)"
proof -
  obtain r d evs where t: "db_trigger (event_collaborators env) (data h, []) = (r, (d, evs))"
    by (cases "db_trigger (event_collaborators env) (data h, [])") auto
  show "build_id (handler_after_read env h) = build_id h"
    by (cases r)
       (simp_all add: handler_after_read_def TestingFarmHandler_db_trigger_def t
          split: option.splits)
  show "commit_sha (data (handler_after_read env h)) = commit_sha (data h)"
    by (rule get_dict_public(2)[OF handler_after_read_data])
  show "get_dict rt (data (handler_after_read env h)) = get_dict rt (data h)"
    by (rule get_dict_public(1)[OF handler_after_read_data])
qed

text \<open>The rest of the run reads the build id, the commit and the dictionary only.\<close>

lemma partition_targets_cong:
  assumes "build_id h' = build_id h"
      and "commit_sha (data h') = commit_sha (data h)"
  shows "partition_targets env h' ts acc = partition_targets env h ts acc"
proof -
  have f: "find_build env h' = find_build env h"
    by (rule ext) (simp add: find_build_def build_id_given_def assms)
  have a: "add_build env h' = add_build env h"
    by (rule ext)+ (simp add: add_build_def f)
  show ?thesis by (cases acc) (simp add: partition_targets_eq f a)
qed

lemma run_targets_cong:
  assumes "build_id h' = build_id h"
      and "commit_sha (data h') = commit_sha (data h)"
      and "get_dict (interp env) (data h') = get_dict (interp env) (data h)"
  shows "run_targets env h' = run_targets env h"
proof -
  note p = partition_targets_cong[OF assms(1,2)]
  have t: "\<And>wo tr. trigger_build env h' wo tr = trigger_build env h wo tr"
    by (simp add: trigger_build_def assms(3))
  show ?thesis unfolding run_targets_def p t by (rule refl)
qed


lemma run_targets_after_read:
  "run_targets env (handler_after_read env h) = run_targets env h"
  by (rule run_targets_cong) (rule handler_after_read_same)+

subsection \<open>A run from its start\<close>

lemma run_built:
  assumes "helper_built env h"
  shows "run env h = (Inr (fst (run_targets env h)), handler_after_read env h,
                      trigger_read_effects env h @ snd (run_targets env h))"
proof -
  obtain r h' tr where t: "TestingFarmHandler_db_trigger env h = (r, h', tr)"
    by (cases "TestingFarmHandler_db_trigger env h") auto
  from assms t obtain v where r: "r = Inr v" by (cases r) (simp_all add: helper_built_def)
  have h': "h' = handler_after_read env h" by (simp add: handler_after_read_def t)
  have "run_targets env h' = run_targets env h" unfolding h' by (rule run_targets_after_read)
  then show ?thesis
    by (simp add: run_def t r handler_after_read_def trigger_read_effects_def
          split: prod.splits)
qed

lemma run_not_built:
  assumes "\<not> helper_built env h"
  shows "\<exists>err. fst (TestingFarmHandler_db_trigger env h) = Inl err
           \<and> run env h = (Inl err, handler_after_read env h, trigger_read_effects env h)"
proof -
  obtain r h' tr where t: "TestingFarmHandler_db_trigger env h = (r, h', tr)"
    by (cases "TestingFarmHandler_db_trigger env h") auto
  from assms t obtain err where r: "r = Inl err" by (cases r) (simp_all add: helper_built_def)
  show ?thesis
    by (simp add: run_def t r handler_after_read_def trigger_read_effects_def)
qed

lemma of_event_effects:
  "build_jobs (map Event_effect evs) = []"
  "test_jobs (map Event_effect evs) = []"
  "notifications (map Event_effect evs) = []"
  "lookups (map Event_effect evs) = []"
  "id_queries (map Event_effect evs) = []"
  by (induction evs) simp_all

lemma trigger_read_trace:
  "build_jobs (trigger_read_effects env h) = []"
  "test_jobs (trigger_read_effects env h) = []"
  "notifications (trigger_read_effects env h) = []"
  "lookups (trigger_read_effects env h) = []"
  "id_queries (trigger_read_effects env h)
     = (if tf_priv_db_trigger h = None \<and> build_id_given h then [the (build_id h)] else [])"
proof -
  obtain r d evs where t: "db_trigger (event_collaborators env) (data h, []) = (r, (d, evs))"
    by (cases "db_trigger (event_collaborators env) (data h, [])") auto
  show "build_jobs (trigger_read_effects env h) = []"
    by (cases r)
       (simp_all add: trigger_read_effects_def TestingFarmHandler_db_trigger_def t
          of_event_effects split: option.splits)
  show "test_jobs (trigger_read_effects env h) = []"
    by (cases r)
       (simp_all add: trigger_read_effects_def TestingFarmHandler_db_trigger_def t
          of_event_effects split: option.splits)
  show "notifications (trigger_read_effects env h) = []"
    by (cases r)
       (simp_all add: trigger_read_effects_def TestingFarmHandler_db_trigger_def t
          of_event_effects split: option.splits)
  show "lookups (trigger_read_effects env h) = []"
    by (cases r)
       (simp_all add: trigger_read_effects_def TestingFarmHandler_db_trigger_def t
          of_event_effects split: option.splits)
  show "id_queries (trigger_read_effects env h)
     = (if tf_priv_db_trigger h = None \<and> build_id_given h then [the (build_id h)] else [])"
    by (cases r)
       (simp_all add: trigger_read_effects_def TestingFarmHandler_db_trigger_def t
          of_event_effects split: option.splits)
qed

lemma helper_built_iff:
  "helper_built env h \<longleftrightarrow>
     tf_priv_db_trigger h \<noteq> None
     \<or> (if build_id_given h then get_by_id env (the (build_id h)) \<noteq> None
        else \<not> isl (fst (db_trigger (event_collaborators env) (data h, []))))"
proof -
  obtain r d evs where t: "db_trigger (event_collaborators env) (data h, []) = (r, (d, evs))"
    by (cases "db_trigger (event_collaborators env) (data h, [])") auto
  show ?thesis
    by (cases r)
       (simp_all add: helper_built_def TestingFarmHandler_db_trigger_def t
          split: option.splits)
qed

lemma run_built_trace:
  assumes "helper_built env h"
  shows "outcome (run env h) = Inr (fst (run_targets env h))"
    and "build_jobs (trace (run env h)) = build_jobs (snd (run_targets env h))"
    and "test_jobs (trace (run env h)) = test_jobs (snd (run_targets env h))"
    and "notifications (trace (run env h)) = notifications (snd (run_targets env h))"
    and "lookups (trace (run env h)) = lookups (snd (run_targets env h))"
    and "id_queries (trace (run env h))
           = (if tf_priv_db_trigger h = None \<and> build_id_given h then [the (build_id h)] else [])
             @ id_queries (snd (run_targets env h))"
  by (simp_all add: run_built[OF assms] outcome_def trace_def trace_append trigger_read_trace)

lemma run_not_built_trace:
  assumes "\<not> helper_built env h"
  shows "\<exists>err. outcome (run env h) = Inl err"
    and "build_jobs (trace (run env h)) = []"
    and "test_jobs (trace (run env h)) = []"
    and "notifications (trace (run env h)) = []"
    and "lookups (trace (run env h)) = []"
    and "id_queries (trace (run env h))
           = (if tf_priv_db_trigger h = None \<and> build_id_given h then [the (build_id h)] else [])"
proof -
  from run_not_built[OF assms] obtain err where
    r: "run env h = (Inl err, handler_after_read env h, trigger_read_effects env h)" by blast
  show "\<exists>err. outcome (run env h) = Inl err" by (simp add: r outcome_def)
  show "build_jobs (trace (run env h)) = []" by (simp add: r trace_def trigger_read_trace)
  show "test_jobs (trace (run env h)) = []" by (simp add: r trace_def trigger_read_trace)
  show "notifications (trace (run env h)) = []" by (simp add: r trace_def trigger_read_trace)
  show "lookups (trace (run env h)) = []" by (simp add: r trace_def trigger_read_trace)
  show "id_queries (trace (run env h))
           = (if tf_priv_db_trigger h = None \<and> build_id_given h then [the (build_id h)] else [])"
    by (simp add: r trace_def trigger_read_trace)
qed

subsection \<open>The examples\<close>

lemma example_helper_built:
  "helper_built (example_helper ts builds ok) (example_handler None)"
  "helper_built (example_helper ts builds ok) (example_handler (Some 0))"
  "helper_built (example_helper ts builds ok) (example_handler (Some 7))"
  using fresh_db_trigger
  by (simp_all add: helper_built_iff example_selectors build_id_given_def fresh_state_def)

lemma no_url_read:
  "TestingFarmHandler_db_trigger (example_helper ts builds ok) no_url_handler
     = (Inl AttributeError, no_url_handler, [Event_effect Call_get_project])"
  by (simp add: TestingFarmHandler_db_trigger_def no_url_handler_def build_id_given_def
        example_selectors db_trigger_def upsert_with_def project_def get_project_def
        no_url_event_def no_override_event_def is_in_def pull_request_event_types_def)

lemma no_url_run:
  "run (example_helper ts builds ok) no_url_handler
     = (Inl AttributeError, no_url_handler, [Event_effect Call_get_project])"
  by (simp add: run_def no_url_read)

subsection \<open>What a run submits, from its start\<close>




text \<open>
  C3 (as amended). There is at least one target and no target has a build. A run that
  gets its helper built reports one pending status for each target, in order, sends
  exactly one build job, whose event carries all the targets as its target override, and
  starts no test run. A run whose helper cannot be built, because the read of the trigger
  raises, raises that error: it reports no status, sends no build job and starts no test
  run.
\<close>

theorem no_build_one_build_job:
  assumes "tests_targets env \<noteq> []"
      and "\<forall>t\<in>set (tests_targets env). fst (find_build env h t) = None"
  shows "(helper_built env h \<longrightarrow>
            (\<exists>res. outcome (run env h) = Inr res)
            \<and> notifications (trace (run env h))
                = map (\<lambda>t. (Status_pending, missing_build_description, Url (Some []), t))
                    (tests_targets env)
            \<and> build_jobs (trace (run env h))
                = [dict_set ''targets_override'' (PList (map PStr (tests_targets env)))
                     (get_dict (interp env) (data h))]
            \<and> (\<forall>ev\<in>set (build_jobs (trace (run env h))).
                  dict_get ev ''targets_override'' = PList (map PStr (tests_targets env)))
            \<and> test_jobs (trace (run env h)) = [])
         \<and> (\<not> helper_built env h \<longrightarrow>
            (\<exists>err. outcome (run env h) = Inl err)
            \<and> notifications (trace (run env h)) = []
            \<and> build_jobs (trace (run env h)) = []
            \<and> test_jobs (trace (run env h)) = [])"
proof (intro conjI impI)
  assume hb: "helper_built env h"
  note t = run_built_trace[OF hb]
  note P = run_targets_no_build[OF assms, folded t(2) t(3) t(4)]
  show "\<exists>res. outcome (run env h) = Inr res" using t(1) by blast
  from P show "notifications (trace (run env h))
                = map (\<lambda>t. (Status_pending, missing_build_description, Url (Some []), t))
                    (tests_targets env)" by (elim conjE)
  from P show "build_jobs (trace (run env h))
                = [dict_set ''targets_override'' (PList (map PStr (tests_targets env)))
                     (get_dict (interp env) (data h))]" by (elim conjE)
  from P show "\<forall>ev\<in>set (build_jobs (trace (run env h))).
                  dict_get ev ''targets_override'' = PList (map PStr (tests_targets env))"
    by (elim conjE)
  from P show "test_jobs (trace (run env h)) = []" by (elim conjE)
next
  assume nb: "\<not> helper_built env h"
  show "\<exists>err. outcome (run env h) = Inl err" by (rule run_not_built_trace(1)[OF nb])
  show "notifications (trace (run env h)) = []" by (rule run_not_built_trace(4)[OF nb])
  show "build_jobs (trace (run env h)) = []" by (rule run_not_built_trace(2)[OF nb])
  show "test_jobs (trace (run env h)) = []" by (rule run_not_built_trace(3)[OF nb])
qed

theorem no_build_one_build_job_witness:
  "tests_targets (example_helper two_targets none_built True) \<noteq> []
   \<and> map (\<lambda>t. fst (find_build (example_helper two_targets none_built True)
                         (example_handler None) t))
       (tests_targets (example_helper two_targets none_built True)) = [None, None]
   \<and> helper_built (example_helper two_targets none_built True) (example_handler None)
   \<and> (\<exists>res. outcome (run (example_helper two_targets none_built True) (example_handler None))
              = Inr res)
   \<and> map (\<lambda>ev. dict_get ev ''targets_override'')
       (build_jobs (trace (run (example_helper two_targets none_built True)
                             (example_handler None))))
       = [PList [PStr ''fedora-rawhide-x86_64'', PStr ''fedora-35-x86_64'']]
   \<and> test_jobs (trace (run (example_helper two_targets none_built True)
                          (example_handler None))) = []
   \<and> length (notifications
        (trace (run (example_helper two_targets none_built True) (example_handler None)))) = 2"
proof -
  let ?E = "example_helper two_targets none_built True" and ?H = "example_handler None"
  have h1: "tests_targets ?E \<noteq> []" by (simp add: example_selectors two_targets_def)
  have h2: "\<forall>t\<in>set (tests_targets ?E). fst (find_build ?E ?H t) = None"
    by (simp add: find_build_def build_id_given_def example_selectors none_built_def)
  have hb: "helper_built ?E ?H" by (rule example_helper_built)
  have t: "tests_targets ?E = [''fedora-rawhide-x86_64'', ''fedora-35-x86_64'']"
    by (simp add: example_selectors two_targets_def)
  note T = no_build_one_build_job[OF h1 h2]
  from T hb have o: "\<exists>res. outcome (run ?E ?H) = Inr res" by blast
  from T hb have n: "notifications (trace (run ?E ?H))
           = map (\<lambda>t. (Status_pending, missing_build_description, Url (Some []), t))
               (tests_targets ?E)" by blast
  from T hb have b: "build_jobs (trace (run ?E ?H))
           = [dict_set ''targets_override'' (PList (map PStr (tests_targets ?E)))
                (get_dict (interp ?E) (data ?H))]" by blast
  from T hb have j: "test_jobs (trace (run ?E ?H)) = []" by blast
  have 3: "map (\<lambda>ev. dict_get ev ''targets_override'') (build_jobs (trace (run ?E ?H)))
       = [PList [PStr ''fedora-rawhide-x86_64'', PStr ''fedora-35-x86_64'']]"
    unfolding b by (simp add: dict_get_dict_set t)
  have 5: "length (notifications (trace (run ?E ?H))) = 2" unfolding n by (simp add: t)
  have e: "map (\<lambda>t. fst (find_build ?E ?H t)) (tests_targets ?E) = [None, None]"
    by (simp add: find_build_def build_id_given_def example_selectors none_built_def
          two_targets_def)
  from h1 e hb o 3 j 5 show ?thesis by (intro conjI)
qed

text \<open>
  Two targets without a build, and an event without a project URL: the read of the
  trigger raises \<^verbatim>\<open>AttributeError\<close> and the run ends there, with no pending status
  and no build job.
\<close>

theorem no_build_no_project_counterexample:
  "tests_targets (example_helper two_targets none_built True) \<noteq> []
   \<and> map (\<lambda>t. fst (find_build (example_helper two_targets none_built True) no_url_handler t))
       (tests_targets (example_helper two_targets none_built True)) = [None, None]
   \<and> outcome (run (example_helper two_targets none_built True) no_url_handler)
       = Inl AttributeError
   \<and> trace (run (example_helper two_targets none_built True) no_url_handler)
       = [Event_effect Call_get_project]
   \<and> notifications (trace (run (example_helper two_targets none_built True) no_url_handler))
       = []
   \<and> build_jobs (trace (run (example_helper two_targets none_built True) no_url_handler))
       = []"
proof -
  let ?E = "example_helper two_targets none_built True"
  have b: "build_id no_url_handler = None" by (simp add: no_url_handler_def)
  have 1: "tests_targets ?E \<noteq> []" by (simp add: example_selectors two_targets_def)
  have 2: "map (\<lambda>t. fst (find_build ?E no_url_handler t)) (tests_targets ?E) = [None, None]"
    by (simp add: find_build_def build_id_given_def b example_selectors none_built_def
          two_targets_def)
  have 3: "outcome (run ?E no_url_handler) = Inl AttributeError"
    by (simp add: no_url_run outcome_def)
  have 4: "trace (run ?E no_url_handler) = [Event_effect Call_get_project]"
    by (simp add: no_url_run trace_def)
  have 5: "notifications (trace (run ?E no_url_handler)) = []" unfolding 4 by simp
  have 6: "build_jobs (trace (run ?E no_url_handler)) = []" unfolding 4 by simp
  from 1 2 3 4 5 6 show ?thesis by (intro conjI)
qed

subsection \<open>A run seeded with a build, from its start\<close>

lemma trigger_read_other_lookup:
  "TestingFarmHandler_db_trigger (env\<lparr>get_latest_copr_build := g\<rparr>) h
     = TestingFarmHandler_db_trigger env h"
proof -
  have a: "get_by_id (env\<lparr>get_latest_copr_build := g\<rparr>) = get_by_id env"
    "get_trigger_object (env\<lparr>get_latest_copr_build := g\<rparr>) = get_trigger_object env"
    "event_collaborators (env\<lparr>get_latest_copr_build := g\<rparr>) = event_collaborators env"
    by simp_all
  show ?thesis unfolding TestingFarmHandler_db_trigger_def a by (rule refl)
qed

lemma run_other_lookup:
  assumes "build_id_given h"
  shows "run (env\<lparr>get_latest_copr_build := g\<rparr>) h = run env h"
proof -
  obtain r h' tr where t: "TestingFarmHandler_db_trigger env h = (r, h', tr)"
    by (cases "TestingFarmHandler_db_trigger env h") auto
  have "h' = handler_after_read env h" by (simp add: handler_after_read_def t)
  then have "build_id h' = build_id h" by (simp add: handler_after_read_same)
  with assms have "build_id_given h'" by (simp add: build_id_given_def)
  then have "run_targets (env\<lparr>get_latest_copr_build := g\<rparr>) h' = run_targets env h'"
    by (rule run_targets_other_lookup)
  then show ?thesis
    by (cases r) (simp_all add: run_def trigger_read_other_lookup t)
qed

lemma run_missing_build:
  assumes "build_id_given h" "tf_priv_db_trigger h = None"
      and "get_by_id env (the (build_id h)) = None"
  shows "run env h = (Inl AttributeError, h, [Get_by_id (the (build_id h))])"
  using assms by (simp add: run_def TestingFarmHandler_db_trigger_def)

text \<open>
  C6 (as amended). In a run whose build id is set and is not zero, the lookup of the
  latest build of a target is never called, and the build of every target is the build
  with that id. The helper is built when the handler has its trigger already or a build
  with that id exists; the run then returns, and has queried the build by id once for the
  trigger, unless the handler had it, and once for each target. Otherwise the run raises
  \<^verbatim>\<open>AttributeError\<close> after the one query for the trigger. Either way the outcome and
  the effects of the run are the same whatever the lookup would have answered.
\<close>

theorem build_id_bypasses_lookup:
  assumes "build_id h = Some i" and "i \<noteq> 0"
  shows "lookups (trace (run env h)) = []
         \<and> (\<forall>t. fst (find_build env h t) = get_by_id env i)
         \<and> (helper_built env h \<longleftrightarrow> tf_priv_db_trigger h \<noteq> None \<or> get_by_id env i \<noteq> None)
         \<and> (helper_built env h \<longrightarrow>
              (\<exists>res. outcome (run env h) = Inr res)
              \<and> id_queries (trace (run env h))
                  = (if tf_priv_db_trigger h = None then [i] else [])
                    @ replicate (length (tests_targets env)) i)
         \<and> (\<not> helper_built env h \<longrightarrow>
              outcome (run env h) = Inl AttributeError
              \<and> id_queries (trace (run env h)) = [i])
         \<and> run (env\<lparr>get_latest_copr_build := g\<rparr>) h = run env h"
proof (intro conjI impI)
  from assms have g: "build_id_given h" by (simp add: build_id_given_def)
  from assms have i: "the (build_id h) = i" by simp
  show "lookups (trace (run env h)) = []"
  proof (cases "helper_built env h")
    case True
    show ?thesis by (simp add: run_built_trace(5)[OF True] run_targets_lookups g)
  next
    case False
    show ?thesis by (rule run_not_built_trace(5)[OF False])
  qed
  show "\<forall>t. fst (find_build env h t) = get_by_id env i"
    by (simp add: find_build_def g i)
  show b: "helper_built env h \<longleftrightarrow> tf_priv_db_trigger h \<noteq> None \<or> get_by_id env i \<noteq> None"
    by (simp add: helper_built_iff g i)
  show "run (env\<lparr>get_latest_copr_build := g\<rparr>) h = run env h"
    by (rule run_other_lookup[OF g])
  {
    assume hb: "helper_built env h"
    show "\<exists>res. outcome (run env h) = Inr res" using run_built_trace(1)[OF hb] by blast
    show "id_queries (trace (run env h))
            = (if tf_priv_db_trigger h = None then [i] else [])
              @ replicate (length (tests_targets env)) i"
      by (simp add: run_built_trace(6)[OF hb] run_targets_id_queries g i)
  }
  {
    assume nb: "\<not> helper_built env h"
    with b have n: "tf_priv_db_trigger h = None" "get_by_id env (the (build_id h)) = None"
      by (simp_all add: i)
    note r = run_missing_build[OF g n]
    show "outcome (run env h) = Inl AttributeError" by (simp add: r outcome_def)
    show "id_queries (trace (run env h)) = [i]" by (simp add: r trace_def i)
  }
qed

theorem build_id_bypasses_lookup_witness:
  "build_id (example_handler (Some 7)) = Some 7 \<and> (7::int) \<noteq> 0
   \<and> helper_built (example_helper two_targets none_built True) (example_handler (Some 7))
   \<and> lookups (trace (run (example_helper two_targets none_built True)
                        (example_handler (Some 7)))) = []
   \<and> id_queries (trace (run (example_helper two_targets none_built True)
                           (example_handler (Some 7)))) = [7, 7, 7]
   \<and> fst (find_build (example_helper two_targets none_built True) (example_handler (Some 7))
            ''fedora-35-x86_64'') = Some (successful_build 7)
   \<and> build_id (example_handler (Some 8)) = Some 8 \<and> (8::int) \<noteq> 0
   \<and> \<not> helper_built (example_helper two_targets none_built True) (example_handler (Some 8))
   \<and> outcome (run (example_helper two_targets none_built True) (example_handler (Some 8)))
       = Inl AttributeError
   \<and> id_queries (trace (run (example_helper two_targets none_built True)
                           (example_handler (Some 8)))) = [8]"
proof -
  let ?E = "example_helper two_targets none_built True"
  let ?H = "example_handler (Some 7)" and ?M = "example_handler (Some 8)"
  have h1: "build_id ?H = Some 7" by (simp add: example_selectors)
  have h2: "(7::int) \<noteq> 0" by simp
  have m1: "build_id ?M = Some 8" by (simp add: example_selectors)
  have m2: "(8::int) \<noteq> 0" by simp
  have hb: "helper_built ?E ?H" by (rule example_helper_built)
  have p: "tf_priv_db_trigger ?H = None" "tf_priv_db_trigger ?M = None"
    by (simp_all add: example_selectors)
  have l: "[7] @ replicate (length (tests_targets ?E)) (7::int) = [7, 7, 7]"
    by (simp add: example_selectors two_targets_def)
  have g: "get_by_id ?E 7 = Some (successful_build 7)" "get_by_id ?E 8 = None"
    by (simp_all add: example_selectors)
  note T = build_id_bypasses_lookup[OF h1 h2, of ?E "get_latest_copr_build ?E"]
  note U = build_id_bypasses_lookup[OF m1 m2, of ?E "get_latest_copr_build ?E"]
  from T have 1: "lookups (trace (run ?E ?H)) = []" by (elim conjE)
  from T hb have "id_queries (trace (run ?E ?H))
      = (if tf_priv_db_trigger ?H = None then [7] else [])
        @ replicate (length (tests_targets ?E)) 7" by blast
  then have 2: "id_queries (trace (run ?E ?H)) = [7, 7, 7]" unfolding p using l by simp
  from T have 3: "\<forall>t. fst (find_build ?E ?H t) = get_by_id ?E 7" by (elim conjE)
  from 3 g have 4: "fst (find_build ?E ?H ''fedora-35-x86_64'') = Some (successful_build 7)"
    by simp
  from U have "helper_built ?E ?M
                 \<longleftrightarrow> tf_priv_db_trigger ?M \<noteq> None \<or> get_by_id ?E 8 \<noteq> None"
    by (elim conjE)
  then have nb: "\<not> helper_built ?E ?M" unfolding p g by simp
  from U nb have 5: "outcome (run ?E ?M) = Inl AttributeError" by blast
  from U nb have 6: "id_queries (trace (run ?E ?M)) = [8]" by blast
  from h1 h2 hb 1 2 4 m1 m2 nb 5 6 show ?thesis by (intro conjI)
qed

text \<open>
  A build id of zero is set, and is read as no build id: the trigger is the trigger of
  the event, the latest build of the target is looked up, and no build is queried by id.
\<close>

theorem build_id_zero_counterexample:
  "build_id (example_handler (Some 0)) = Some 0
   \<and> (\<exists>res. outcome (run (example_helper [''fedora-rawhide-x86_64''] all_built True)
                        (example_handler (Some 0))) = Inr res)
   \<and> lookups (trace (run (example_helper [''fedora-rawhide-x86_64''] all_built True)
                        (example_handler (Some 0))))
       = [(''fedora-rawhide-x86_64'', PStr ''12345'')]
   \<and> id_queries (trace (run (example_helper [''fedora-rawhide-x86_64''] all_built True)
                           (example_handler (Some 0)))) = []"
proof -
  let ?E = "example_helper [''fedora-rawhide-x86_64''] all_built True"
  let ?H = "example_handler (Some 0)"
  have hb: "helper_built ?E ?H" by (rule example_helper_built)
  note t = run_built_trace[OF hb]
  have 1: "build_id ?H = Some 0" by (simp add: example_selectors)
  have 2: "\<exists>res. outcome (run ?E ?H) = Inr res" using t(1) by blast
  have 3: "lookups (trace (run ?E ?H)) = [(''fedora-rawhide-x86_64'', PStr ''12345'')]"
    unfolding t(5)
    by (simp add: run_targets_lookups build_id_given_def example_selectors
          no_override_event_def)
  have 4: "id_queries (trace (run ?E ?H)) = []"
    unfolding t(6)
    by (simp add: run_targets_id_queries build_id_given_def example_selectors)
  from 1 2 3 4 show ?thesis by (intro conjI)
qed

subsection \<open>The outcome of a run, from its start\<close>

text \<open>
  C4 (as amended). A run that gets its helper built returns, and it succeeds exactly when
  every test run it started succeeded. A target whose build did not succeed gets a failure
  status and no test run, and does not count against the run. Every test run that did not
  succeed puts its details into the details of the run under its target and makes the run
  fail; and unless one of the failed targets is itself named \<^verbatim>\<open>msg\<close>, the entry
  \<^verbatim>\<open>msg\<close> of the details ends with the sentence that names the failed targets. A run
  whose helper cannot be built, because the read of the trigger raises, raises that error
  and returns nothing; it has started no test run and reported no status.
\<close>

theorem run_outcome:
  "(helper_built env h \<longrightarrow>
     (\<exists>res. outcome (run env h) = Inr res
       \<and> (success res
            \<longleftrightarrow> (\<forall>p\<in>set (test_jobs (trace (run env h))).
                   success (run_testing_farm env (fst p) (snd p))))
       \<and> (\<forall>p\<in>set (with_build env h).
             status (snd p) \<noteq> PG_COPR_BUILD_STATUS_SUCCESS env \<longrightarrow>
               (Status_failure, build_failed_description,
                Copr_build_info_url (copr_id (snd p)), fst p)
                 \<in> set (notifications (trace (run env h)))
               \<and> fst p \<notin> snd ` set (test_jobs (trace (run env h))))
       \<and> (\<forall>p\<in>set (test_jobs (trace (run env h))).
             \<not> success (run_testing_farm env (fst p) (snd p)) \<longrightarrow>
               \<not> success res
               \<and> map_of (details res) (snd p)
                   = Some (PDict (details (run_testing_farm env (fst p) (snd p)))))
       \<and> failed_targets env h
           = map snd (filter (\<lambda>p. \<not> success (run_testing_farm env (fst p) (snd p)))
                         (test_jobs (trace (run env h))))
       \<and> (failed_targets env h \<noteq> [] \<and> ''msg'' \<notin> set (failed_targets env h) \<longrightarrow>
             (\<exists>prefix. map_of (details res) ''msg''
                = Some (PStr (prefix @ ''Failed testing farm targets: '' @ [CHR 0x27]
                              @ repr_dict_keys env (failed_targets env h)
                              @ [CHR 0x27] @ ''.''))))))
   \<and> (\<not> helper_built env h \<longrightarrow>
        (\<exists>err. outcome (run env h) = Inl err)
        \<and> test_jobs (trace (run env h)) = []
        \<and> notifications (trace (run env h)) = [])"
proof (intro conjI impI)
  assume hb: "helper_built env h"
  note t = run_built_trace[OF hb]
  note P = run_targets_outcome[of env h, folded t(3) t(4)]
  show "\<exists>res. outcome (run env h) = Inr res
       \<and> (success res
            \<longleftrightarrow> (\<forall>p\<in>set (test_jobs (trace (run env h))).
                   success (run_testing_farm env (fst p) (snd p))))
       \<and> (\<forall>p\<in>set (with_build env h).
             status (snd p) \<noteq> PG_COPR_BUILD_STATUS_SUCCESS env \<longrightarrow>
               (Status_failure, build_failed_description,
                Copr_build_info_url (copr_id (snd p)), fst p)
                 \<in> set (notifications (trace (run env h)))
               \<and> fst p \<notin> snd ` set (test_jobs (trace (run env h))))
       \<and> (\<forall>p\<in>set (test_jobs (trace (run env h))).
             \<not> success (run_testing_farm env (fst p) (snd p)) \<longrightarrow>
               \<not> success res
               \<and> map_of (details res) (snd p)
                   = Some (PDict (details (run_testing_farm env (fst p) (snd p)))))
       \<and> failed_targets env h
           = map snd (filter (\<lambda>p. \<not> success (run_testing_farm env (fst p) (snd p)))
                         (test_jobs (trace (run env h))))
       \<and> (failed_targets env h \<noteq> [] \<and> ''msg'' \<notin> set (failed_targets env h) \<longrightarrow>
             (\<exists>prefix. map_of (details res) ''msg''
                = Some (PStr (prefix @ ''Failed testing farm targets: '' @ [CHR 0x27]
                              @ repr_dict_keys env (failed_targets env h)
                              @ [CHR 0x27] @ ''.''))))"
    by (rule exI[of _ "fst (run_targets env h)"]) (rule conjI[OF t(1) P])
next
  assume nb: "\<not> helper_built env h"
  show "\<exists>err. outcome (run env h) = Inl err" by (rule run_not_built_trace(1)[OF nb])
  show "test_jobs (trace (run env h)) = []" by (rule run_not_built_trace(3)[OF nb])
  show "notifications (trace (run env h)) = []" by (rule run_not_built_trace(4)[OF nb])
qed

theorem run_outcome_witness:
  "helper_built (example_helper two_targets all_built False) (example_handler None)
   \<and> failed_targets (example_helper two_targets all_built False) (example_handler None) \<noteq> []
   \<and> ''msg'' \<notin> set (failed_targets (example_helper two_targets all_built False)
                         (example_handler None))
   \<and> (successful_build 1, ''fedora-35-x86_64'')
       \<in> set (test_jobs (trace (run (example_helper two_targets all_built False)
                                   (example_handler None))))
   \<and> \<not> success (run_testing_farm (example_helper two_targets all_built False)
                  (successful_build 1) ''fedora-35-x86_64'')
   \<and> (\<exists>res. outcome (run (example_helper two_targets all_built False) (example_handler None))
              = Inr res
         \<and> \<not> success res
         \<and> map_of (details res) ''fedora-35-x86_64''
             = Some (PDict [(''msg'', PStr ''Failed to submit tests'')])
         \<and> (\<exists>prefix. map_of (details res) ''msg''
               = Some (PStr (prefix @ ''Failed testing farm targets: '' @ [CHR 0x27]
                             @ ''fedora-rawhide-x86_64fedora-35-x86_64''
                             @ [CHR 0x27] @ ''.''))))
   \<and> \<not> helper_built (example_helper two_targets all_built False) no_url_handler
   \<and> (\<exists>err. outcome (run (example_helper two_targets all_built False) no_url_handler)
              = Inl err)"
proof -
  let ?E = "example_helper two_targets all_built False" and ?H = "example_handler None"
  have hb: "helper_built ?E ?H" by (rule example_helper_built)
  have nb: "\<not> helper_built ?E no_url_handler" by (simp add: helper_built_def no_url_read)
  note t = run_built_trace[OF hb]
  have w: "with_build ?E ?H = [(''fedora-rawhide-x86_64'', successful_build 1),
                                (''fedora-35-x86_64'', successful_build 1)]"
    by (simp add: example_with_build two_targets_def)
  have ft: "failed_targets ?E ?H = [''fedora-rawhide-x86_64'', ''fedora-35-x86_64'']"
    by (simp add: failed_targets_def w example_failing)
  have h1: "failed_targets ?E ?H \<noteq> [] \<and> ''msg'' \<notin> set (failed_targets ?E ?H)"
    by (simp add: ft)
  have tj: "test_jobs (trace (run ?E ?H)) = [(successful_build 1, ''fedora-rawhide-x86_64''),
                                              (successful_build 1, ''fedora-35-x86_64'')]"
    unfolding t(3)
    by (simp add: run_targets_test_jobs w example_selectors successful_build_def)
  have h2: "(successful_build 1, ''fedora-35-x86_64'') \<in> set (test_jobs (trace (run ?E ?H)))"
    by (simp add: tj)
  have h3: "\<not> success (run_testing_farm ?E (successful_build 1) ''fedora-35-x86_64'')"
    by (simp add: example_selectors)
  have d: "details (run_testing_farm ?E (successful_build 1) ''fedora-35-x86_64'')
             = [(''msg'', PStr ''Failed to submit tests'')]"
    by (simp add: example_helper_def)
  have r: "repr_dict_keys ?E (failed_targets ?E ?H) = ''fedora-rawhide-x86_64fedora-35-x86_64''"
    unfolding ft by (simp add: example_helper_def)
  note T = run_outcome[of ?E ?H]
  note U = run_outcome[of ?E no_url_handler]
  from T hb obtain res where o: "outcome (run ?E ?H) = Inr res"
    and c3: "\<forall>p\<in>set (test_jobs (trace (run ?E ?H))).
         \<not> success (run_testing_farm ?E (fst p) (snd p)) \<longrightarrow>
           \<not> success res
           \<and> map_of (details res) (snd p)
               = Some (PDict (details (run_testing_farm ?E (fst p) (snd p))))"
    and c5: "failed_targets ?E ?H \<noteq> [] \<and> ''msg'' \<notin> set (failed_targets ?E ?H) \<longrightarrow>
         (\<exists>prefix. map_of (details res) ''msg''
            = Some (PStr (prefix @ ''Failed testing farm targets: '' @ [CHR 0x27]
                          @ repr_dict_keys ?E (failed_targets ?E ?H) @ [CHR 0x27] @ ''.'')))"
    by blast
  from c3 h2 h3 have 1: "\<not> success res
       \<and> map_of (details res) ''fedora-35-x86_64''
           = Some (PDict (details (run_testing_farm ?E (successful_build 1) ''fedora-35-x86_64'')))"
    by fastforce
  from c5 h1 have 2: "\<exists>prefix. map_of (details res) ''msg''
            = Some (PStr (prefix @ ''Failed testing farm targets: '' @ [CHR 0x27]
                          @ repr_dict_keys ?E (failed_targets ?E ?H) @ [CHR 0x27] @ ''.''))"
    by (rule mp)
  from o 1[unfolded d] 2[unfolded r]
  have 3: "\<exists>res. outcome (run ?E ?H) = Inr res
         \<and> \<not> success res
         \<and> map_of (details res) ''fedora-35-x86_64''
             = Some (PDict [(''msg'', PStr ''Failed to submit tests'')])
         \<and> (\<exists>prefix. map_of (details res) ''msg''
               = Some (PStr (prefix @ ''Failed testing farm targets: '' @ [CHR 0x27]
                             @ ''fedora-rawhide-x86_64fedora-35-x86_64''
                             @ [CHR 0x27] @ ''.'')))"
    by blast
  from U nb have 4: "\<exists>err. outcome (run ?E no_url_handler) = Inl err" by blast
  from hb h1 h2 h3 3 nb 4 show ?thesis by (intro conjI) (elim conjE, assumption)+
qed

text \<open>
  A single target named \<^verbatim>\<open>msg\<close> whose build succeeded and whose test run failed: the
  run returns a failure, and the only entry of its details, \<^verbatim>\<open>msg\<close>, holds the details
  of the test run of that target; the sentence naming the failed targets has been
  overwritten.
\<close>

theorem run_outcome_msg_counterexample:
  "test_jobs (trace (run (example_helper [''msg''] all_built False) (example_handler None)))
     = [(successful_build 1, ''msg'')]
   \<and> \<not> success (run_testing_farm (example_helper [''msg''] all_built False)
                  (successful_build 1) ''msg'')
   \<and> outcome (run (example_helper [''msg''] all_built False) (example_handler None))
       = Inr \<lparr> success = False,
               details = [(''msg'', PDict [(''msg'', PStr ''Failed to submit tests'')])] \<rparr>"
proof -
  let ?E = "example_helper [''msg''] all_built False" and ?H = "example_handler None"
  have hb: "helper_built ?E ?H" by (rule example_helper_built)
  note t = run_built_trace[OF hb]
  have w: "with_build ?E ?H = [(''msg'', successful_build 1)]"
    by (simp add: example_with_build)
  have wo: "without_build ?E ?H = []"
    by (simp add: without_build_eq find_build_def build_id_given_def example_selectors
          all_built_def)
  have d: "details (run_testing_farm ?E (successful_build 1) ''msg'')
             = [(''msg'', PStr ''Failed to submit tests'')]"
    by (simp add: example_helper_def)
  have 1: "test_jobs (trace (run ?E ?H)) = [(successful_build 1, ''msg'')]"
    unfolding t(3)
    by (simp add: run_targets_test_jobs w example_selectors successful_build_def)
  have 2: "\<not> success (run_testing_farm ?E (successful_build 1) ''msg'')"
    by (simp add: example_selectors)
  have "fst (run_targets ?E ?H) = \<lparr> success = False,
             details = [(''msg'', PDict [(''msg'', PStr ''Failed to submit tests'')])] \<rparr>"
    by (simp add: run_targets_result w wo trigger_build_details example_failing d Let_def
          setdefault_msg_def dict_update_def)
  then have 3: "outcome (run ?E ?H) = Inr \<lparr> success = False,
             details = [(''msg'', PDict [(''msg'', PStr ''Failed to submit tests'')])] \<rparr>"
    unfolding t(1) by simp
  from 1 2 3 show ?thesis by (intro conjI)
qed

section \<open>Completion callbacks\<close>

lemma reports_append: "reports (a @ b) = reports a @ reports b"
  by (induction a rule: reports.induct) simp_all

lemma warnings_append: "warnings (a @ b) = warnings a @ warnings b"
  by (induction a rule: warnings.induct) simp_all

lemma handler_db_trigger_unknown:
  assumes "test_runs st (pipeline_id (handler st)) = None"
      and "cached_db_trigger (handler st) = None"
  shows "handler_db_trigger st = (None, st)"
  using assms by (simp add: handler_db_trigger_def)

lemma report_result_unknown:
  assumes "test_runs st (pipeline_id (handler st)) = None"
      and "cached_db_trigger (handler st) = None"
  shows "report_result env None ss st = (Inl AttributeError, st)"
  using assms by (simp add: report_result_def handler_db_trigger_unknown)

lemma results_run_unknown_pipeline:
  assumes "test_runs st (pipeline_id (handler st)) = None"
      and "cached_db_trigger (handler st) = None"
  shows "fst (results_run env st) = Inl AttributeError"
    and "reports (effects (snd (results_run env st))) = reports (effects st)"
    and "warnings (effects (snd (results_run env st)))
           = warnings (effects st) @ [pipeline_id (handler st)]"
proof -
  let ?w = "emit (Warning_unknown_pipeline (pipeline_id (handler st))) st"
  have r: "results_run env st =
     (if result (handler st) = Some TF_running
      then (Inl AttributeError, emit (Metric_inc test_runs_started) ?w)
      else (Inl AttributeError, emit (Metric_inc test_runs_finished) ?w))"
    using assms
    by (simp add: results_run_def Let_def emit_def report_result_unknown)
  show "fst (results_run env st) = Inl AttributeError" by (simp add: r)
  show "reports (effects (snd (results_run env st))) = reports (effects st)"
    by (simp add: r emit_def reports_append)
  show "warnings (effects (snd (results_run env st)))
           = warnings (effects st) @ [pipeline_id (handler st)]"
    by (simp add: r emit_def warnings_append)
qed

text \<open>
  C1. A callback for a pipeline that has no run: the warning is logged, and then the run
  raises \<^verbatim>\<open>AttributeError\<close> instead of returning; no status is reported. For a
  result other than \<^verbatim>\<open>running\<close> the duration is computed from the missing run; for
  \<^verbatim>\<open>running\<close> the trigger of the missing run is asked for its type.
\<close>

theorem unknown_pipeline_raises:
  "test_runs (start_state (callback ''unknown-pipeline'' (Some TF_passed) None))
       ''unknown-pipeline'' = None
   \<and> fst (results_run example_env
            (start_state (callback ''unknown-pipeline'' (Some TF_passed) None)))
       = Inl AttributeError
   \<and> fst (results_run example_env
            (start_state (callback ''unknown-pipeline'' (Some TF_running) None)))
       = Inl AttributeError
   \<and> reports (effects (snd (results_run example_env
            (start_state (callback ''unknown-pipeline'' (Some TF_passed) None))))) = []
   \<and> reports (effects (snd (results_run example_env
            (start_state (callback ''unknown-pipeline'' (Some TF_running) None))))) = []
   \<and> warnings (effects (snd (results_run example_env
            (start_state (callback ''unknown-pipeline'' (Some TF_passed) None)))))
       = [''unknown-pipeline'']"
proof -
  have u: "\<And>r. test_runs (start_state (callback ''unknown-pipeline'' r None))
             (pipeline_id (handler (start_state (callback ''unknown-pipeline'' r None)))) = None"
    by (simp add: start_state_def callback_def one_run_store_def)
  have c: "\<And>r. cached_db_trigger (handler (start_state (callback ''unknown-pipeline'' r None)))
             = None"
    by (simp add: start_state_def callback_def)
  have p: "\<And>r. pipeline_id (handler (start_state (callback ''unknown-pipeline'' r None)))
             = ''unknown-pipeline''"
          "\<And>r. effects (start_state (callback ''unknown-pipeline'' r None)) = []"
    by (simp_all add: start_state_def callback_def)
  have k: "test_runs (start_state (callback ''unknown-pipeline'' (Some TF_passed) None))
       ''unknown-pipeline'' = None"
    by (simp add: start_state_def one_run_store_def)
  show ?thesis
    using k by (simp add: results_run_unknown_pipeline[OF u c] p)
qed

lemma handler_db_trigger_known:
  assumes "test_runs st (pipeline_id (handler st)) = Some m"
  shows "\<exists>t. handler_db_trigger st
           = (Some t, st\<lparr>handler := (handler st)\<lparr>cached_db_trigger := Some t\<rparr>\<rparr>)"
proof (cases "cached_db_trigger (handler st)")
  case None
  then have "handler_db_trigger st
     = (Some (trigger_object m),
        st\<lparr>handler := (handler st)\<lparr>cached_db_trigger := Some (trigger_object m)\<rparr>\<rparr>)"
    using assms by (simp add: handler_db_trigger_def)
  then show ?thesis by (rule exI)
next
  case (Some t)
  then have "st\<lparr>handler := (handler st)\<lparr>cached_db_trigger := Some t\<rparr>\<rparr> = st" by simp
  then have "handler_db_trigger st
     = (Some t, st\<lparr>handler := (handler st)\<lparr>cached_db_trigger := Some t\<rparr>\<rparr>)"
    using Some by (simp add: handler_db_trigger_def)
  then show ?thesis by (rule exI)
qed

lemma handler_db_trigger_cached:
  "handler_db_trigger (st\<lparr>handler := (handler st)\<lparr>cached_db_trigger := Some c\<rparr>\<rparr>)
     = (Some c, st\<lparr>handler := (handler st)\<lparr>cached_db_trigger := Some c\<rparr>\<rparr>)"
  by (simp add: handler_db_trigger_def)

lemma report_result_known:
  assumes "test_runs st (pipeline_id (handler st)) = Some m"
  shows "\<exists>st' r. report_result env (Some m') ss st = (Inr \<lparr> success = True, details = [] \<rparr>, st')
           \<and> reports (effects st') = reports (effects st) @ [r]
           \<and> report_state r = fst ss \<and> report_description r = snd ss
           \<and> report_url r = Testing_farm_info_url (run_id m')"
proof -
  let ?s = "set_web_url (pipeline_id (handler st)) (log_url (handler st)) st"
  have k: "test_runs ?s (pipeline_id (handler ?s))
             = Some (m\<lparr>web_url := log_url (handler st)\<rparr>)"
    using assms by (simp add: set_web_url_def)
  from handler_db_trigger_known[OF k] obtain t where
    t: "handler_db_trigger ?s = (Some t, ?s\<lparr>handler := (handler ?s)\<lparr>cached_db_trigger := Some t\<rparr>\<rparr>)"
    by blast
  have e: "effects ?s = effects st" by (simp add: set_web_url_def)
  show ?thesis
    by (simp add: report_result_def Let_def t handler_db_trigger_cached emit_def
          reports_append e)
qed

lemma results_run_known:
  assumes "test_runs st (pipeline_id (handler st)) = Some m"
  shows "\<exists>st' r. results_run env st = (Inr \<lparr> success = True, details = [] \<rparr>, st')
           \<and> reports (effects st') = reports (effects st) @ [r]
           \<and> report_state r = fst (status_and_summary (result (handler st)) (summary (handler st)))
           \<and> report_description r
               = snd (status_and_summary (result (handler st)) (summary (handler st)))
           \<and> report_url r = Testing_farm_info_url (run_id m)"
proof -
  let ?ss = "status_and_summary (result (handler st)) (summary (handler st))"
  let ?s1 = "set_status (pipeline_id (handler st)) (result (handler st)) st"
  have h1: "handler ?s1 = handler st" and e1: "effects ?s1 = effects st"
    by (simp_all add: set_status_def)
  have k1: "test_runs ?s1 (pipeline_id (handler st))
              = Some (m\<lparr>run_status := result (handler st)\<rparr>)"
    using assms by (simp add: set_status_def)
  show ?thesis
  proof (cases "result (handler st) = Some TF_running")
    case True
    let ?s2 = "emit (Metric_inc test_runs_started) ?s1"
    have k2: "test_runs ?s2 (pipeline_id (handler ?s2))
                = Some (m\<lparr>run_status := result (handler st)\<rparr>)"
      using k1 by (simp add: emit_def h1)
    have r: "results_run env st = report_result env (Some m) ?ss ?s2"
      using assms True by (simp add: results_run_def Let_def)
    have e2: "reports (effects ?s2) = reports (effects st)"
      by (simp add: emit_def e1 reports_append)
    from report_result_known[OF k2, of env m ?ss] show ?thesis
      unfolding r e2 by blast
  next
    case False
    let ?s2 = "emit (Metric_observe test_run_finished_time (now env - submitted_time m))
                 (emit (Metric_inc test_runs_finished) ?s1)"
    have k2: "test_runs ?s2 (pipeline_id (handler ?s2))
                = Some (m\<lparr>run_status := result (handler st)\<rparr>)"
      using k1 by (simp add: emit_def h1)
    have r: "results_run env st = report_result env (Some m) ?ss ?s2"
      using assms False by (simp add: results_run_def Let_def)
    have e2: "reports (effects ?s2) = reports (effects st)"
      by (simp add: emit_def e1 reports_append)
    from report_result_known[OF k2, of env m ?ss] show ?thesis
      unfolding r e2 by blast
  qed
qed

text \<open>
  C5. The status and the summary are defined for every result: \<^verbatim>\<open>running\<close> gives the
  running status and "Tests are running ...", \<^verbatim>\<open>passed\<close> gives success and "Tests
  passed ...", \<^verbatim>\<open>error\<close> gives error and "Error ...", and \<^verbatim>\<open>failed\<close>, like any
  other result or none, gives failure and "Tests failed ...". A summary that the callback
  supplies (one that is not empty) is used as it is, and only a missing or empty one is
  replaced by the default. For a pipeline that has a run, the run of the handler returns
  success and reports exactly this status and summary.
\<close>

theorem result_status_mapping:
  "status_and_summary (Some TF_running) None = (Status_running, ''Tests are running ...'')
   \<and> status_and_summary (Some TF_passed) None = (Status_success, ''Tests passed ...'')
   \<and> status_and_summary (Some TF_error) None = (Status_error, ''Error ...'')
   \<and> status_and_summary (Some TF_failed) None = (Status_failure, ''Tests failed ...'')
   \<and> (r \<noteq> Some TF_running \<and> r \<noteq> Some TF_passed \<and> r \<noteq> Some TF_error \<longrightarrow>
        status_and_summary r None = (Status_failure, ''Tests failed ...''))
   \<and> fst (status_and_summary r s) = fst (status_and_summary r None)
   \<and> (s' \<noteq> [] \<longrightarrow> snd (status_and_summary r (Some s')) = s')
   \<and> status_and_summary r (Some []) = status_and_summary r None
   \<and> (test_runs st (pipeline_id (handler st)) = Some m \<longrightarrow>
        (\<exists>st' rep. results_run env st = (Inr \<lparr> success = True, details = [] \<rparr>, st')
           \<and> reports (effects st') = reports (effects st) @ [rep]
           \<and> (report_state rep, report_description rep)
               = status_and_summary (result (handler st)) (summary (handler st))))"
proof (intro conjI impI)
  assume "test_runs st (pipeline_id (handler st)) = Some m"
  from results_run_known[OF this, of env]
  show "\<exists>st' rep. results_run env st = (Inr \<lparr> success = True, details = [] \<rparr>, st')
           \<and> reports (effects st') = reports (effects st) @ [rep]
           \<and> (report_state rep, report_description rep)
               = status_and_summary (result (handler st)) (summary (handler st))"
    by (metis prod.collapse)
qed (simp_all add: status_and_summary_def summary_or_def)

theorem result_status_mapping_witness:
  "Some TF_queued \<noteq> Some TF_running \<and> Some TF_queued \<noteq> Some TF_passed
   \<and> Some TF_queued \<noteq> Some TF_error
   \<and> status_and_summary (Some TF_queued) None = (Status_failure, ''Tests failed ...'')
   \<and> ''3 tests failed'' \<noteq> []
   \<and> snd (status_and_summary (Some TF_queued) (Some ''3 tests failed'')) = ''3 tests failed''
   \<and> test_runs (start_state (callback ''known-pipeline'' (Some TF_passed) None))
        (pipeline_id (handler (start_state (callback ''known-pipeline'' (Some TF_passed) None))))
       = Some known_run
   \<and> (\<exists>st' rep.
         results_run example_env (start_state (callback ''known-pipeline'' (Some TF_passed) None))
           = (Inr \<lparr> success = True, details = [] \<rparr>, st')
         \<and> reports (effects st') = [rep]
         \<and> (report_state rep, report_description rep) = (Status_success, ''Tests passed ...''))"
proof -
  let ?S = "start_state (callback ''known-pipeline'' (Some TF_passed) None)"
  have h1: "Some TF_queued \<noteq> Some TF_running \<and> Some TF_queued \<noteq> Some TF_passed
            \<and> Some TF_queued \<noteq> Some TF_error" by simp
  have h2: "''3 tests failed'' \<noteq> []" by simp
  have h3: "test_runs ?S (pipeline_id (handler ?S)) = Some known_run"
    by (simp add: start_state_def callback_def one_run_store_def)
  have v: "result (handler ?S) = Some TF_passed" "summary (handler ?S) = None"
          "effects ?S = []"
    by (simp_all add: start_state_def callback_def)
  note T = result_status_mapping[of "Some TF_queued" None "''3 tests failed''" ?S known_run
             example_env]
  from T have p: "status_and_summary (Some TF_passed) None = (Status_success, ''Tests passed ...'')"
    by (elim conjE)
  from T have c5: "Some TF_queued \<noteq> Some TF_running \<and> Some TF_queued \<noteq> Some TF_passed
        \<and> Some TF_queued \<noteq> Some TF_error \<longrightarrow>
        status_and_summary (Some TF_queued) None = (Status_failure, ''Tests failed ...'')"
    by (elim conjE)
  from T have c7: "''3 tests failed'' \<noteq> [] \<longrightarrow>
        snd (status_and_summary (Some TF_queued) (Some ''3 tests failed'')) = ''3 tests failed''"
    by (elim conjE)
  from T have c9: "test_runs ?S (pipeline_id (handler ?S)) = Some known_run \<longrightarrow>
        (\<exists>st' rep. results_run example_env ?S = (Inr \<lparr> success = True, details = [] \<rparr>, st')
           \<and> reports (effects st') = reports (effects ?S) @ [rep]
           \<and> (report_state rep, report_description rep)
               = status_and_summary (result (handler ?S)) (summary (handler ?S)))"
    by (elim conjE)
  from c5 h1 have 1: "status_and_summary (Some TF_queued) None
                        = (Status_failure, ''Tests failed ...'')" by (rule mp)
  from c7 h2 have 2: "snd (status_and_summary (Some TF_queued) (Some ''3 tests failed''))
                        = ''3 tests failed''" by (rule mp)
  from c9 h3 have "\<exists>st' rep. results_run example_env ?S
             = (Inr \<lparr> success = True, details = [] \<rparr>, st')
           \<and> reports (effects st') = reports (effects ?S) @ [rep]
           \<and> (report_state rep, report_description rep)
               = status_and_summary (result (handler ?S)) (summary (handler ?S))" by (rule mp)
  then have 3: "\<exists>st' rep. results_run example_env ?S
             = (Inr \<lparr> success = True, details = [] \<rparr>, st')
           \<and> reports (effects st') = [rep]
           \<and> (report_state rep, report_description rep) = (Status_success, ''Tests passed ...'')"
    unfolding v p by simp
  from h1 1 h2 2 h3 3 show ?thesis by (intro conjI) (elim conjE, assumption)+
qed

section \<open>Parsing comments\<close>

lemma tokens_from_word:
  "tok \<noteq> [] \<Longrightarrow>
     tokens_from tok s
       = (tok @ takeWhile (\<lambda>c. \<not> is_space c) s)
         # tokens_from [] (dropWhile (\<lambda>c. \<not> is_space c) s)"
proof (induction s arbitrary: tok)
  case Nil
  then show ?case by simp
next
  case (Cons c cs)
  show ?case
  proof (cases "is_space c")
    case True
    then show ?thesis using Cons.prems by simp
  next
    case False
    then show ?thesis using Cons.IH[of "tok @ [c]"] by simp
  qed
qed

lemma tokens_from_skip: "tokens_from [] s = tokens_from [] (dropWhile is_space s)"
  by (induction s) simp_all

lemma tokens_from_start:
  assumes "s \<noteq> []" "\<not> is_space (hd s)"
  shows "tokens_from [] s
           = takeWhile (\<lambda>c. \<not> is_space c) s
             # tokens_from [] (dropWhile (\<lambda>c. \<not> is_space c) s)"
proof -
  from assms obtain c cs where s: "s = c # cs" "\<not> is_space c" by (cases s) auto
  show ?thesis using s tokens_from_word[of "[c]" cs] by simp
qed

lemma tokens_from_empty: "tokens_from [] s = [] \<longleftrightarrow> dropWhile is_space s = []"
proof (cases "dropWhile is_space s = []")
  case True
  have "tokens_from [] s = tokens_from [] []"
    using tokens_from_skip[of s] unfolding True .
  then have "tokens_from [] s = []" by simp
  with True show ?thesis by simp
next
  case False
  then have "\<not> is_space (hd (dropWhile is_space s))" by (rule hd_dropWhile)
  from tokens_from_start[OF False this] have "tokens_from [] (dropWhile is_space s) \<noteq> []"
    by simp
  then have "tokens_from [] s \<noteq> []" using tokens_from_skip[of s] by simp
  with False show ?thesis by simp
qed

lemma trimmed_prefix: "xs = rev (dropWhile P (rev xs)) @ rev (takeWhile P (rev xs))"
proof -
  have "rev xs = takeWhile P (rev xs) @ dropWhile P (rev xs)" by simp
  then have "rev (rev xs) = rev (takeWhile P (rev xs) @ dropWhile P (rev xs))"
    by (rule arg_cong)
  then show ?thesis by (simp only: rev_rev_ident rev_append)
qed

lemma strip_no_leading_space: "strip l = [] \<or> \<not> is_space (hd (strip l))"
proof (cases "strip l = []")
  case True
  then show ?thesis by (rule disjI1)
next
  case False
  let ?d = "dropWhile is_space l"
  have s: "strip l = rev (dropWhile is_space (rev ?d))" by (simp only: strip_def)
  have d: "?d = strip l @ rev (takeWhile is_space (rev ?d))"
    unfolding s by (rule trimmed_prefix)
  from False d have ne: "?d \<noteq> []" by (metis append_is_Nil_conv)
  then have h: "\<not> is_space (hd ?d)" by (rule hd_dropWhile)
  have "hd ?d = hd (strip l @ rev (takeWhile is_space (rev ?d)))" using d by simp
  also have "\<dots> = hd (strip l)" using False by (rule hd_append2)
  finally show ?thesis using h by simp
qed

lemma packit_no_space: "\<forall>c\<in>set ''/packit''. \<not> is_space c"
  by (simp add: is_space_def)

lemma first_word_iff:
  assumes "\<forall>c\<in>set w. \<not> is_space c"
  shows "takeWhile (\<lambda>c. \<not> is_space c) t = w
           \<longleftrightarrow> take (length w) t = w
               \<and> (drop (length w) t = [] \<or> is_space (hd (drop (length w) t)))"
proof
  assume a: "takeWhile (\<lambda>c. \<not> is_space c) t = w"
  have 1: "take (length w) t = w" using takeWhile_eq_take[of "\<lambda>c. \<not> is_space c" t] a by simp
  have d: "dropWhile (\<lambda>c. \<not> is_space c) t = drop (length w) t"
    using dropWhile_eq_drop[of "\<lambda>c. \<not> is_space c" t] a by simp
  have "drop (length w) t = [] \<or> is_space (hd (drop (length w) t))"
  proof (cases "drop (length w) t = []")
    case True
    then show ?thesis by (rule disjI1)
  next
    case False
    then have "dropWhile (\<lambda>c. \<not> is_space c) t \<noteq> []" using d by simp
    then have "\<not> \<not> is_space (hd (dropWhile (\<lambda>c. \<not> is_space c) t))" by (rule hd_dropWhile)
    then show ?thesis unfolding d by simp
  qed
  with 1 show "take (length w) t = w
               \<and> (drop (length w) t = [] \<or> is_space (hd (drop (length w) t)))" by (rule conjI)
next
  assume a: "take (length w) t = w
               \<and> (drop (length w) t = [] \<or> is_space (hd (drop (length w) t)))"
  let ?r = "drop (length w) t"
  have t: "t = w @ ?r" using a append_take_drop_id[of "length w" t] by simp
  have r: "takeWhile (\<lambda>c. \<not> is_space c) ?r = []"
  proof (cases ?r)
    case Nil
    then show ?thesis by simp
  next
    case (Cons c cs)
    with a have "is_space c" by simp
    with Cons show ?thesis by simp
  qed
  have "takeWhile (\<lambda>c. \<not> is_space c) (w @ ?r) = w @ takeWhile (\<lambda>c. \<not> is_space c) ?r"
    using assms by (simp add: takeWhile_append2)
  with r have "takeWhile (\<lambda>c. \<not> is_space c) (w @ ?r) = w" by simp
  with t show "takeWhile (\<lambda>c. \<not> is_space c) t = w" by simp
qed

lemma tokens_two_iff:
  assumes "t = [] \<or> \<not> is_space (hd t)"
  shows "(\<exists>name args. tokens t = ''/packit'' # name # args)
           \<longleftrightarrow> take 7 t = ''/packit'' \<and> drop 7 t \<noteq> [] \<and> is_space (hd (drop 7 t))
               \<and> dropWhile is_space (drop 7 t) \<noteq> []"
proof (cases "t = []")
  case True
  then show ?thesis by (simp add: tokens_def)
next
  case False
  with assms have h: "\<not> is_space (hd t)" by simp
  let ?w = "takeWhile (\<lambda>c. \<not> is_space c) t"
  let ?rest = "dropWhile (\<lambda>c. \<not> is_space c) t"
  have tk: "tokens t = ?w # tokens_from [] ?rest"
    unfolding tokens_def by (rule tokens_from_start[OF False h])
  have fw: "?w = ''/packit''
              \<longleftrightarrow> take 7 t = ''/packit'' \<and> (drop 7 t = [] \<or> is_space (hd (drop 7 t)))"
  proof -
    have len: "length ''/packit'' = 7" by simp
    show ?thesis using first_word_iff[OF packit_no_space, of t] unfolding len .
  qed
  show ?thesis
  proof (cases "?w = ''/packit''")
    case w: True
    have len: "length ''/packit'' = 7" by simp
    have rest: "?rest = drop 7 t"
      using dropWhile_eq_drop[of "\<lambda>c. \<not> is_space c" t] unfolding w len .
    have "(\<exists>name args. tokens t = ''/packit'' # name # args)
            \<longleftrightarrow> tokens_from [] (drop 7 t) \<noteq> []"
      unfolding tk w rest by (cases "tokens_from [] (drop 7 t)") simp_all
    also have "\<dots> \<longleftrightarrow> dropWhile is_space (drop 7 t) \<noteq> []"
      by (simp only: tokens_from_empty)
    finally have e: "(\<exists>name args. tokens t = ''/packit'' # name # args)
            \<longleftrightarrow> dropWhile is_space (drop 7 t) \<noteq> []" .
    from w fw have f: "take 7 t = ''/packit''"
      "drop 7 t = [] \<or> is_space (hd (drop 7 t))" by simp_all
    have "dropWhile is_space (drop 7 t) \<noteq> [] \<Longrightarrow> drop 7 t \<noteq> []" by auto
    with e f show ?thesis by blast
  next
    case w: False
    then have "\<not> (\<exists>name args. tokens t = ''/packit'' # name # args)"
      unfolding tk by simp
    moreover have "\<not> (take 7 t = ''/packit'' \<and> drop 7 t \<noteq> [] \<and> is_space (hd (drop 7 t))
               \<and> dropWhile is_space (drop 7 t) \<noteq> [])"
      using w fw by blast
    ultimately show ?thesis by blast
  qed
qed

lemma command_of_line_iff: "command_of_line l \<noteq> None \<longleftrightarrow> qualifying_line l"
proof -
  have "command_of_line l \<noteq> None
          \<longleftrightarrow> (\<exists>name args. tokens (strip l) = ''/packit'' # name # args)"
    by (auto simp: command_of_line_def split: list.splits)
  also have "\<dots> \<longleftrightarrow> qualifying_line l"
    unfolding qualifying_line_def Let_def
    by (rule tokens_two_iff[OF strip_no_leading_space])
  finally show ?thesis .
qed

lemma dropWhile_all: "\<forall>x\<in>set a. P x \<Longrightarrow> dropWhile P (a @ ys) = dropWhile P ys"
  by (induction a) simp_all

lemma strip_padding:
  assumes "\<forall>ch\<in>set a. is_space ch" "\<forall>ch\<in>set b. is_space ch"
  shows "strip (a @ l @ b) = strip l"
proof -
  have b': "\<forall>ch\<in>set (rev b). is_space ch" using assms(2) by simp
  have 1: "dropWhile is_space (a @ l @ b) = dropWhile is_space (l @ b)"
    by (rule dropWhile_all[OF assms(1)])
  show ?thesis
  proof (cases "\<forall>ch\<in>set l. is_space ch")
    case True
    then have "\<forall>ch\<in>set (l @ b). is_space ch" using assms(2) by auto
    then have e1: "dropWhile is_space (l @ b) = []" by simp
    have e2: "dropWhile is_space l = []" using True by simp
    show ?thesis unfolding strip_def 1 e1 e2 by (rule refl)
  next
    case False
    then obtain x where "x \<in> set l" "\<not> is_space x" by blast
    then have 2: "dropWhile is_space (l @ b) = dropWhile is_space l @ b"
      by (simp add: dropWhile_append1)
    have "rev (dropWhile is_space l @ b) = rev b @ rev (dropWhile is_space l)" by simp
    then have "dropWhile is_space (rev (dropWhile is_space l @ b))
                 = dropWhile is_space (rev (dropWhile is_space l))"
      using dropWhile_all[OF b'] by simp
    then show ?thesis unfolding strip_def 1 2 by simp
  qed
qed

lemma split_lines_not_empty: "split_lines s \<noteq> []"
  by (induction s) (auto split: list.splits)

lemma split_lines_append:
  "split_lines (c1 @ CHR 0x0A # c2) = split_lines c1 @ split_lines c2"
proof (induction c1)
  case Nil
  show ?case by simp
next
  case (Cons c cs)
  obtain l ls where s: "split_lines cs = l # ls"
    using split_lines_not_empty[of cs] by (cases "split_lines cs") auto
  show ?case using Cons.IH by (simp add: s)
qed

lemma get_commands_eq:
  "get_packit_commands_from_comment c
     = map (\<lambda>l. the (command_of_line l)) (filter qualifying_line (split_lines c))"
proof -
  have "\<And>ls. List.map_filter command_of_line ls
          = map (\<lambda>l. the (command_of_line l)) (filter qualifying_line ls)"
    subgoal for ls
      by (induction ls)
         (auto simp: List.map_filter_simps command_of_line_iff[symmetric] split: option.splits)
    done
  then show ?thesis by (simp add: get_packit_commands_from_comment_def)
qed

lemma get_commands_append:
  "get_packit_commands_from_comment (c1 @ newline @ c2)
     = get_packit_commands_from_comment c1 @ get_packit_commands_from_comment c2"
  by (simp add: get_commands_eq newline_def split_lines_append)

lemma blank_not_qualifying: "\<forall>ch\<in>set l. is_space ch \<Longrightarrow> \<not> qualifying_line l"
proof -
  assume "\<forall>ch\<in>set l. is_space ch"
  then have e: "dropWhile is_space l = []" by simp
  have "strip l = []" unfolding strip_def e by simp
  then show ?thesis by (simp add: qualifying_line_def)
qed


lemma literal_comments:
  "get_packit_commands_from_comment [] = []"
  "get_packit_commands_from_comment '' '' = []"
  "get_packit_commands_from_comment ''some unrelated'' = []"
  "get_packit_commands_from_comment
     (''comment with embedded /packit build not recognized'' @ newline
      @ ''        unless /packit command is on line by itself'') = []"
  "get_packit_commands_from_comment ''/packit build'' = [(''build'', [])]"
  "get_packit_commands_from_comment ''/packit  build '' = [(''build'', [])]"
  "get_packit_commands_from_comment '' /packit build '' = [(''build'', [])]"
  "get_packit_commands_from_comment (''asd'' @ newline @ ''/packit build'' @ newline)
     = [(''build'', [])]"
  by (simp_all add: get_packit_commands_from_comment_def List.map_filter_simps
        command_of_line_def tokens_def strip_def is_space_def newline_def)

text \<open>
  C7. The parser returns one command for each line of the comment that qualifies, in the
  order of the lines, and a line qualifies exactly when, trimmed, it starts with the token
  \<^verbatim>\<open>/packit\<close> followed by white space and the name of a command, which is then the
  name of the command returned. A comment without a qualifying line gives the empty list:
  the empty comment, unrelated text, and \<^verbatim>\<open>/packit\<close> in the middle of a line. White
  space before and after a line changes nothing, a blank line yields nothing, and the
  commands of a comment are those of its lines, whatever lines surround them.
\<close>

theorem comment_commands:
  "get_packit_commands_from_comment c
       = map (\<lambda>l. the (command_of_line l)) (filter qualifying_line (split_lines c))
   \<and> (qualifying_line l \<longleftrightarrow> command_of_line l \<noteq> None)
   \<and> (qualifying_line l \<longrightarrow>
        (\<exists>name args. command_of_line l = Some (name, args)
           \<and> tokens (strip l) = ''/packit'' # name # args))
   \<and> ((\<forall>l\<in>set (split_lines c). \<not> qualifying_line l) \<longrightarrow>
        get_packit_commands_from_comment c = [])
   \<and> get_packit_commands_from_comment [] = []
   \<and> get_packit_commands_from_comment ''some unrelated'' = []
   \<and> get_packit_commands_from_comment
         (''comment with embedded /packit build not recognized'' @ newline
          @ ''        unless /packit command is on line by itself'') = []
   \<and> get_packit_commands_from_comment ''/packit build'' = [(''build'', [])]
   \<and> get_packit_commands_from_comment '' /packit build '' = [(''build'', [])]
   \<and> get_packit_commands_from_comment (''asd'' @ newline @ ''/packit build'' @ newline)
       = [(''build'', [])]
   \<and> ((\<forall>ch\<in>set a. is_space ch) \<and> (\<forall>ch\<in>set b. is_space ch) \<longrightarrow>
        command_of_line (a @ l @ b) = command_of_line l
        \<and> qualifying_line (a @ l @ b) = qualifying_line l)
   \<and> ((\<forall>ch\<in>set l. is_space ch) \<longrightarrow> \<not> qualifying_line l)
   \<and> get_packit_commands_from_comment (c1 @ newline @ c2)
       = get_packit_commands_from_comment c1 @ get_packit_commands_from_comment c2"
proof (intro conjI impI)
  show "get_packit_commands_from_comment c
       = map (\<lambda>l. the (command_of_line l)) (filter qualifying_line (split_lines c))"
    by (rule get_commands_eq)
  show "qualifying_line l \<longleftrightarrow> command_of_line l \<noteq> None"
    by (simp only: command_of_line_iff)
  show "get_packit_commands_from_comment (c1 @ newline @ c2)
       = get_packit_commands_from_comment c1 @ get_packit_commands_from_comment c2"
    by (rule get_commands_append)
next
  assume "qualifying_line l"
  then have "command_of_line l \<noteq> None" by (simp only: command_of_line_iff)
  then show "\<exists>name args. command_of_line l = Some (name, args)
           \<and> tokens (strip l) = ''/packit'' # name # args"
    by (auto simp: command_of_line_def split: list.splits if_splits)
next
  assume "\<forall>l\<in>set (split_lines c). \<not> qualifying_line l"
  then have "filter qualifying_line (split_lines c) = []" by (simp add: filter_empty_conv)
  then show "get_packit_commands_from_comment c = []" by (simp add: get_commands_eq)
next
  assume p: "(\<forall>ch\<in>set a. is_space ch) \<and> (\<forall>ch\<in>set b. is_space ch)"
  then have s: "strip (a @ l @ b) = strip l" using strip_padding by blast
  show "command_of_line (a @ l @ b) = command_of_line l"
    unfolding command_of_line_def s by (rule refl)
  show "qualifying_line (a @ l @ b) = qualifying_line l"
    unfolding qualifying_line_def s by (rule refl)
next
  assume "\<forall>ch\<in>set l. is_space ch"
  then show "\<not> qualifying_line l" by (rule blank_not_qualifying)
qed (simp_all only: literal_comments)

theorem comment_commands_witness:
  "qualifying_line '' /packit build ''
   \<and> command_of_line '' /packit build '' = Some (''build'', [])
   \<and> map qualifying_line (split_lines ''some unrelated'') = [False]
   \<and> get_packit_commands_from_comment ''some unrelated'' = []
   \<and> list_all is_space ''  '' \<and> list_all is_space '' ''
   \<and> command_of_line (''  '' @ ''/packit build'' @ '' '') = command_of_line ''/packit build''
   \<and> map qualifying_line (split_lines (''  '' @ newline @ '' '')) = [False, False]
   \<and> get_packit_commands_from_comment (''asd'' @ newline @ ''/packit test'')
       = [(''test'', [])]"
proof -
  have q: "qualifying_line '' /packit build ''"
    by (simp add: qualifying_line_def strip_def is_space_def)
  have u: "\<forall>l\<in>set (split_lines ''some unrelated''). \<not> qualifying_line l"
    by (simp add: qualifying_line_def strip_def is_space_def)
  have sp: "(\<forall>ch\<in>set ''  ''. is_space ch) \<and> (\<forall>ch\<in>set '' ''. is_space ch)"
    by (simp add: is_space_def)
  have bl: "\<forall>ch\<in>set ''  ''. is_space ch" "\<forall>ch\<in>set '' ''. is_space ch"
    by (simp_all add: is_space_def)
  note T1 = comment_commands[of "''some unrelated''" "'' /packit build ''" "''  ''" "'' ''"
              "''asd''" "''/packit test''"]
  note T2 = comment_commands[of "[]" "''/packit build''" "''  ''" "'' ''" "[]" "[]"]
  note T3 = comment_commands[of "[]" "''  ''" "[]" "[]" "[]" "[]"]
  note T4 = comment_commands[of "[]" "'' ''" "[]" "[]" "[]" "[]"]
  from T1 have d: "qualifying_line '' /packit build '' \<longrightarrow>
        (\<exists>name args. command_of_line '' /packit build '' = Some (name, args)
           \<and> tokens (strip '' /packit build '') = ''/packit'' # name # args)"
    by (elim conjE)
  from d q have "\<exists>name args. command_of_line '' /packit build '' = Some (name, args)
           \<and> tokens (strip '' /packit build '') = ''/packit'' # name # args" by (rule mp)
  then have 2: "command_of_line '' /packit build '' = Some (''build'', [])"
    by (auto simp: tokens_def strip_def is_space_def)
  from T1 have e: "(\<forall>l\<in>set (split_lines ''some unrelated''). \<not> qualifying_line l) \<longrightarrow>
        get_packit_commands_from_comment ''some unrelated'' = []" by (elim conjE)
  from e u have 4: "get_packit_commands_from_comment ''some unrelated'' = []" by (rule mp)
  have 3: "map qualifying_line (split_lines ''some unrelated'') = [False]"
    using u by simp
  from T2 have f: "(\<forall>ch\<in>set ''  ''. is_space ch) \<and> (\<forall>ch\<in>set '' ''. is_space ch) \<longrightarrow>
        command_of_line (''  '' @ ''/packit build'' @ '' '') = command_of_line ''/packit build''
        \<and> qualifying_line (''  '' @ ''/packit build'' @ '' '') = qualifying_line ''/packit build''"
    by (elim conjE)
  from f sp have 7: "command_of_line (''  '' @ ''/packit build'' @ '' '')
                       = command_of_line ''/packit build''" by blast
  from T3 have "(\<forall>ch\<in>set ''  ''. is_space ch) \<longrightarrow> \<not> qualifying_line ''  ''" by (elim conjE)
  with bl(1) have b1: "\<not> qualifying_line ''  ''" by (rule rev_mp)
  from T4 have "(\<forall>ch\<in>set '' ''. is_space ch) \<longrightarrow> \<not> qualifying_line '' ''" by (elim conjE)
  with bl(2) have b2: "\<not> qualifying_line '' ''" by (rule rev_mp)
  have 8: "map qualifying_line (split_lines (''  '' @ newline @ '' '')) = [False, False]"
    using b1 b2 by (simp add: newline_def)
  from T1 have "get_packit_commands_from_comment (''asd'' @ newline @ ''/packit test'')
       = get_packit_commands_from_comment ''asd''
         @ get_packit_commands_from_comment ''/packit test''" by (elim conjE)
  then have 9: "get_packit_commands_from_comment (''asd'' @ newline @ ''/packit test'')
       = [(''test'', [])]"
    by (simp add: get_packit_commands_from_comment_def List.map_filter_simps
          command_of_line_def tokens_def strip_def is_space_def)
  have 5: "list_all is_space ''  ''" "list_all is_space '' ''" by (simp_all add: is_space_def)
  from q 2 3 4 5 7 8 9 show ?thesis by (intro conjI)
qed

end
